theory Spec2Isabelle
  imports Complex_Main "HOL-Library.AList"
begin

section \<open>Multi-actor CARLA environment: data model\<close>

text \<open>
  A shallow embedding of \<^verbatim>\<open>src/env/carla/multi_env.py\<close>.  Python dictionaries are
  association lists in insertion order (\<open>AList.update\<close> overwrites in place and appends a
  new key, as a Python \<^verbatim>\<open>dict\<close> does); a missing key raises \<open>KeyError\<close>.  Python floats
  are idealised as \<open>real\<close>.  Every \<^verbatim>\<open>raise\<close> and every failing lookup is a value
  \<open>Inl e\<close>; state that was mutated before the exception stays mutated, so the stateful
  functions return the state next to the result.
\<close>

datatype error =
    RuntimeError | ValueError | AssertionError | KeyError | TypeError
  | AttributeError | IndexError | SimulatorError

type_synonym actor_id = string
type_synonym image = "real list list"
type_synonym pos = "real \<times> real \<times> real"

definition dict_get :: "('k \<times> 'v) list \<Rightarrow> 'k \<Rightarrow> error + 'v" where
  "dict_get d k = (case map_of d k of None \<Rightarrow> Inl KeyError | Some v \<Rightarrow> Inr v)"

text \<open>An action as the caller passes it: a discrete index, or a sequence of floats.\<close>

datatype action = Index int | Vec "real list"

record control =
  steer :: real
  throttle :: real
  brake :: real
  reverse :: bool
  hand_brake :: bool

subsection \<open>Module-level tables\<close>

definition COMMANDS_ENUM :: "(real \<times> string) list" where
  "COMMANDS_ENUM =
     [(0, ''REACH_GOAL''), (5, ''GO_STRAIGHT''), (4, ''TURN_RIGHT''),
      (3, ''TURN_LEFT''), (2, ''LANE_FOLLOW'')]"

definition COMMAND_ORDINAL :: "(string \<times> nat) list" where
  "COMMAND_ORDINAL =
     [(''REACH_GOAL'', 0), (''GO_STRAIGHT'', 1), (''TURN_RIGHT'', 2),
      (''TURN_LEFT'', 3), (''LANE_FOLLOW'', 4)]"

definition RETRIES_ON_ERROR :: nat where
  "RETRIES_ON_ERROR = 5"

definition DISCRETE_ACTIONS :: "(int \<times> real list) list" where
  "DISCRETE_ACTIONS =
     [(0, [0, 0]),
      (1, [0, - 0.5]),
      (2, [0, 0.5]),
      (3, [1, 0]),
      (4, [- 0.5, 0]),
      (5, [0.5, - 0.05]),
      (6, [0.5, 0.05]),
      (7, [- 0.5, - 0.5]),
      (8, [- 0.5, 0.5])]"

subsection \<open>Action decoding (the head of \<^verbatim>\<open>_step\<close>)\<close>

text \<open>
  \<^verbatim>\<open>sigmoid\<close>, over the reals.  In floating point \<^verbatim>\<open>np.exp(x)\<close> overflows to \<^verbatim>\<open>inf\<close> for \<open>x\<close>
  above about 709.78 and the source then returns \<^verbatim>\<open>nan\<close>; the function below has no such
  overflow, so it stands for the source only on arguments below that bound.
\<close>

definition sigmoid :: "real \<Rightarrow> real" where
  "sigmoid x = exp x / (1 + exp x)"

definition clip :: "real \<Rightarrow> real \<Rightarrow> real \<Rightarrow> real" where
  "clip x lo hi = min (max x lo) hi"

text \<open>
  \<^verbatim>\<open>if self.discrete_actions: action = DISCRETE_ACTIONS[int(action)]\<close>: \<^verbatim>\<open>int\<close> of a
  sequence raises \<open>TypeError\<close>, an index outside the table raises \<open>KeyError\<close>.
\<close>

definition decode_action :: "bool \<Rightarrow> action \<Rightarrow> error + action" where
  "decode_action discrete a =
     (if discrete then
        (case a of
           Vec _ \<Rightarrow> Inl TypeError
         | Index i \<Rightarrow> (case dict_get DISCRETE_ACTIONS i of
                         Inl e \<Rightarrow> Inl e
                       | Inr v \<Rightarrow> Inr (Vec v)))
      else Inr a)"

text \<open>
  \<^verbatim>\<open>assert len(action) == 2\<close>, then the throttle, brake and steer of the control
  (\<^verbatim>\<open>reverse\<close> and \<^verbatim>\<open>hand_brake\<close> are always \<^verbatim>\<open>False\<close>).
\<close>

definition action_control :: "bool \<Rightarrow> action \<Rightarrow> error + control" where
  "action_control squash a =
     (case a of
        Index _ \<Rightarrow> Inl TypeError
      | Vec v \<Rightarrow>
          (if length v \<noteq> 2 then Inl AssertionError
           else if squash then
             (let forward = 2 * (sigmoid (v ! 0) - 0.5) in
              Inr \<lparr>steer = 2 * (sigmoid (v ! 1) - 0.5),
                   throttle = clip forward 0 1,
                   brake = \<bar>clip forward (- 1) 0\<bar>,
                   reverse = False, hand_brake = False\<rparr>)
           else
             Inr \<lparr>steer = clip (v ! 1) (- 1) 1,
                  throttle = clip (v ! 0) 0 0.6,
                  brake = \<bar>clip (v ! 0) (- 1) 0\<bar>,
                  reverse = False, hand_brake = False\<rparr>))"

section \<open>Configuration, measurements and environment state\<close>

record scenario =
  start_pos_id :: nat
  end_pos_id :: nat
  num_vehicles :: int
  num_pedestrians :: int
  max_steps :: int

text \<open>A constant of \<^verbatim>\<open>env.carla.scenarios\<close> is one scenario or a list of them.\<close>

datatype scenario_entry = Single scenario | Many "scenario list"

record actor_config =
  enable_planner :: bool
  early_terminate_on_collision :: bool
  reward_function :: string
  scenarios :: string
  manual_control :: bool
  auto_control :: bool
  collision_sensor :: string
  lane_sensor :: string
  send_measurements :: bool
  log_images :: bool
  log_measurements :: bool

text \<open>
  The measurement dictionary built by \<^verbatim>\<open>_read_observation\<close>.  The keys that \<^verbatim>\<open>_step\<close>
  adds later (\<^verbatim>\<open>action\<close>, \<^verbatim>\<open>control\<close>, \<^verbatim>\<open>reward\<close>, \<^verbatim>\<open>total_reward\<close>, \<^verbatim>\<open>done\<close>) are
  optional fields, \<open>None\<close> while the key is absent.  The keys copied from the
  configuration (\<^verbatim>\<open>weather\<close>, \<^verbatim>\<open>map\<close>, \<^verbatim>\<open>x_res\<close>, \<^verbatim>\<open>y_res\<close>) are left out.
\<close>

record measurement =
  m_episode_id :: string
  m_step :: int
  m_x :: real
  m_y :: real
  m_pitch :: real
  m_yaw :: real
  m_roll :: real
  m_forward_speed :: real
  m_distance_to_goal :: real
  m_distance_to_goal_euclidean :: real
  m_collision_vehicles :: int
  m_collision_pedestrians :: int
  m_collision_other :: int
  m_intersection_offroad :: int
  m_intersection_otherlane :: int
  m_start_coord :: "int \<times> int"
  m_end_coord :: "int \<times> int"
  m_current_scenario :: scenario
  m_num_vehicles :: int
  m_num_pedestrians :: int
  m_max_steps :: int
  m_next_command :: string
  m_previous_action :: "action option"
  m_previous_reward :: "real option"
  m_action :: "action option"
  m_control :: "control option"
  m_reward :: "real option"
  m_total_reward :: "real option"
  m_done :: "bool option"

text \<open>
  An observation is the (stacked) image alone, or the triple of the image, the ordinal of
  the next command and \<^verbatim>\<open>[forward_speed, distance_to_goal]\<close>.
\<close>

datatype obs = ImageObs image | TupleObs image nat "real list"

text \<open>
  What the outside world answers while one actor is processed: the simulator, the planner,
  the sensors, the reward function (\<^verbatim>\<open>Reward().compute_reward\<close>), the camera with
  \<^verbatim>\<open>preprocess_image\<close>, and the file system.  A flag that is \<open>False\<close>, or a value that is
  \<open>None\<close>, means that the call raised.
\<close>

record frame =
  fr_control_ok :: bool
  fr_query_ok :: bool
  fr_command :: real
  fr_x :: real
  fr_y :: real
  fr_pitch :: real
  fr_yaw :: real
  fr_roll :: real
  fr_speed :: real
  fr_path_distance :: real
  fr_collision_vehicles :: int
  fr_collision_pedestrians :: int
  fr_collision_other :: int
  fr_offlane :: int
  fr_offroad :: int
  fr_reward :: "real option"
  fr_image :: "image option"
  fr_log_ok :: bool

text \<open>
  The fields of \<^verbatim>\<open>MultiCarlaEnv\<close>.  The first block is fixed by \<^verbatim>\<open>__init__\<close> and the
  imported modules (\<open>scenarios_module\<close> stands for the constants of
  \<^verbatim>\<open>env.carla.scenarios\<close>, \<open>pos_coor_map\<close> for the town's node table, keyed by the node id
  instead of its decimal string); the rest is mutated by \<^verbatim>\<open>reset\<close> and \<^verbatim>\<open>step\<close>.  Simulator
  objects are handles: an actor is \<open>Some h\<close>, or \<open>None\<close> when the spawn returned
  \<^verbatim>\<open>None\<close>; a sensor or camera is the handle of the actor it is attached to.
\<close>

record env =
  framestack :: int
  discrete_actions :: bool
  squash_action_logits :: bool
  actor_configs :: "(actor_id \<times> actor_config) list"
  scenarios_module :: "string \<Rightarrow> scenario_entry"
  pos_coor_map :: "(nat \<times> pos) list"
  carla_out_path :: string
  server_port :: "nat option"
  server_process :: "nat option"
  client :: "nat option"
  num_steps :: "(actor_id \<times> int) list"
  total_reward :: "(actor_id \<times> real option) list"
  prev_measurement :: "(actor_id \<times> measurement) list"
  prev_image :: "image option"
  episode_id_dict :: "(actor_id \<times> string) list"
  measurements_file_dict :: "(actor_id \<times> string option) list"
  scenario :: "scenario option"
  start_pos :: "(actor_id \<times> pos) list"
  end_pos :: "(actor_id \<times> pos) list"
  start_coord :: "(actor_id \<times> int \<times> int) list"
  end_coord :: "(actor_id \<times> int \<times> int) list"
  last_obs :: "obs option"
  obs_dict :: "(actor_id \<times> obs) list"
  previous_actions :: "(actor_id \<times> action) list"
  previous_rewards :: "(actor_id \<times> real) list"
  last_reward :: "(actor_id \<times> real option) list"
  actors :: "(actor_id \<times> nat option) list"
  collisions :: "(actor_id \<times> nat) list"
  lane_invasions :: "(actor_id \<times> nat) list"
  cameras :: "(actor_id \<times> nat) list"
  scenario_map :: "(actor_id \<times> scenario) list"
  done_dict :: "(string \<times> bool) list"
  dones :: "actor_id set"

text \<open>\<^verbatim>\<open>__init__\<close>: no server, no client, every dictionary empty.\<close>

definition init_env ::
  "int \<Rightarrow> bool \<Rightarrow> bool \<Rightarrow> (actor_id \<times> actor_config) list \<Rightarrow> (string \<Rightarrow> scenario_entry)
     \<Rightarrow> (nat \<times> pos) list \<Rightarrow> string \<Rightarrow> env" where
  "init_env fs discrete squash acfgs tbl coords out_path =
     \<lparr>framestack = fs, discrete_actions = discrete, squash_action_logits = squash,
      actor_configs = acfgs, scenarios_module = tbl, pos_coor_map = coords,
      carla_out_path = out_path,
      server_port = None, server_process = None, client = None,
      num_steps = [], total_reward = [], prev_measurement = [], prev_image = None,
      episode_id_dict = [], measurements_file_dict = [], scenario = None,
      start_pos = [], end_pos = [], start_coord = [], end_coord = [],
      last_obs = None, obs_dict = [], previous_actions = [], previous_rewards = [],
      last_reward = [], actors = [], collisions = [], lane_invasions = [], cameras = [],
      scenario_map = [], done_dict = [], dones = {}\<rparr>"

section \<open>Reading a measurement\<close>

text \<open>
  A call on an actor object: \<open>AttributeError\<close> when the registry holds \<^verbatim>\<open>None\<close> for the
  actor, the simulator's own exception when the call fails.
\<close>

definition sim_query :: "nat option \<Rightarrow> bool \<Rightarrow> error + unit" where
  "sim_query cur ok =
     (case cur of
        None \<Rightarrow> Inl AttributeError
      | Some _ \<Rightarrow> if ok then Inr () else Inl SimulatorError)"

text \<open>
  The next command: with the planner enabled, the planner's code looked up in
  \<open>COMMANDS_ENUM\<close> (the arguments read the actor's pose and \<^verbatim>\<open>self.end_pos[actor_id]\<close>
  first); otherwise \<^verbatim>\<open>LANE_FOLLOW\<close>.
\<close>

definition next_command_of ::
  "env \<Rightarrow> actor_id \<Rightarrow> actor_config \<Rightarrow> nat option \<Rightarrow> frame \<Rightarrow> error + string" where
  "next_command_of e a cfg cur fr =
     (if enable_planner cfg then
        (case sim_query cur (fr_query_ok fr) of
           Inl x \<Rightarrow> Inl x
         | Inr _ \<Rightarrow>
        (case dict_get (end_pos e) a of
           Inl x \<Rightarrow> Inl x
         | Inr _ \<Rightarrow> dict_get COMMANDS_ENUM (fr_command fr)))
      else Inr ''LANE_FOLLOW'')"

text \<open>
  \<^verbatim>\<open>_read_observation\<close>.  The collision and lane-invasion entries of the actor are indexed
  unconditionally, right after the next command.
\<close>

definition read_observation :: "env \<Rightarrow> actor_id \<Rightarrow> frame \<Rightarrow> error + measurement" where
  "read_observation e a fr =
     (case dict_get (actors e) a of Inl x \<Rightarrow> Inl x | Inr cur \<Rightarrow>
     (case dict_get (actor_configs e) a of Inl x \<Rightarrow> Inl x | Inr cur_config \<Rightarrow>
     (case next_command_of e a cur_config cur fr of Inl x \<Rightarrow> Inl x | Inr next_command \<Rightarrow>
     (case dict_get (collisions e) a of Inl x \<Rightarrow> Inl x | Inr _ \<Rightarrow>
     (case dict_get (lane_invasions e) a of Inl x \<Rightarrow> Inl x | Inr _ \<Rightarrow>
     (case sim_query cur (fr_query_ok fr) of Inl x \<Rightarrow> Inl x | Inr _ \<Rightarrow>
     (case dict_get (end_pos e) a of Inl x \<Rightarrow> Inl x | Inr (ex, ey, ez) \<Rightarrow>
     (case dict_get (episode_id_dict e) a of Inl x \<Rightarrow> Inl x | Inr eid \<Rightarrow>
     (case dict_get (num_steps e) a of Inl x \<Rightarrow> Inl x | Inr n \<Rightarrow>
     (case dict_get (start_coord e) a of Inl x \<Rightarrow> Inl x | Inr sc \<Rightarrow>
     (case dict_get (end_coord e) a of Inl x \<Rightarrow> Inl x | Inr ec \<Rightarrow>
     (case dict_get (scenario_map e) a of Inl x \<Rightarrow> Inl x | Inr scn \<Rightarrow>
     (case scenario e of None \<Rightarrow> Inl TypeError | Some cur_scn \<Rightarrow>
        Inr \<lparr>m_episode_id = eid,
             m_step = n,
             m_x = fr_x fr,
             m_y = fr_y fr,
             m_pitch = fr_pitch fr,
             m_yaw = fr_yaw fr,
             m_roll = fr_roll fr,
             m_forward_speed = fr_speed fr,
             m_distance_to_goal =
               (if next_command = ''REACH_GOAL'' then 0
                else if enable_planner cur_config then fr_path_distance fr / 100
                else - 1),
             m_distance_to_goal_euclidean =
               sqrt ((fr_x fr - ex)\<^sup>2 + (fr_y fr - ey)\<^sup>2) / 100,
             m_collision_vehicles = fr_collision_vehicles fr,
             m_collision_pedestrians = fr_collision_pedestrians fr,
             m_collision_other = fr_collision_other fr,
             m_intersection_offroad = fr_offroad fr,
             m_intersection_otherlane = fr_offlane fr,
             m_start_coord = sc,
             m_end_coord = ec,
             m_current_scenario = scn,
             m_num_vehicles = num_vehicles scn,
             m_num_pedestrians = num_pedestrians scn,
             m_max_steps = max_steps cur_scn,
             m_next_command = next_command,
             m_previous_action = map_of (previous_actions e) a,
             m_previous_reward = map_of (previous_rewards e) a,
             m_action = None, m_control = None, m_reward = None,
             m_total_reward = None, m_done = None\<rparr>)))))))))))))"

section \<open>Encoding an observation\<close>

text \<open>
  \<^verbatim>\<open>encode_obs\<close>.  An image is the list of its slices along the leading axis, so
  \<^verbatim>\<open>np.concatenate([prev_image, image])\<close> is list append (the images of one environment
  come out of the same preprocessing and have the same slice shape).  The buffer
  \<^verbatim>\<open>self.prev_image\<close> is one field of the environment, shared by all actors.
\<close>

definition encode_obs ::
  "env \<Rightarrow> actor_id \<Rightarrow> image \<Rightarrow> measurement \<Rightarrow> (error + obs) \<times> env" where
  "encode_obs e a img py =
     (if framestack e \<noteq> 1 \<and> framestack e \<noteq> 2 then (Inl AssertionError, e)
      else
        (let prev = (case prev_image e of None \<Rightarrow> img | Some p \<Rightarrow> p);
             e1 = e\<lparr>prev_image := Some img\<rparr>;
             stacked = (if framestack e = 2 then prev @ img else img)
         in case dict_get (actor_configs e1) a of
              Inl x \<Rightarrow> (Inl x, e1)
            | Inr cfg \<Rightarrow>
                if \<not> send_measurements cfg then (Inr (ImageObs stacked), e1)
                else
                  (case dict_get COMMAND_ORDINAL (m_next_command py) of
                     Inl x \<Rightarrow> (Inl x, e1)
                   | Inr ord \<Rightarrow>
                       (let ob = TupleObs stacked ord
                                   [m_forward_speed py, m_distance_to_goal py]
                        in (Inr ob, e1\<lparr>last_obs := Some ob\<rparr>)))))"


section \<open>One step of one actor\<close>

text \<open>
  \<^verbatim>\<open>collided_done\<close>: Python's \<^verbatim>\<open>or\<close> reads \<^verbatim>\<open>m["total_reward"]\<close> only when no collision
  counter is positive.
\<close>

definition collided_done :: "measurement \<Rightarrow> error + bool" where
  "collided_done m =
     (if m_collision_vehicles m > 0 \<or> m_collision_pedestrians m > 0
         \<or> m_collision_other m > 0
      then Inr True
      else (case m_total_reward m of
              None \<Rightarrow> Inl KeyError
            | Some t \<Rightarrow> Inr (t < - 100)))"

text \<open>
  The three control modes of \<^verbatim>\<open>_step\<close>: manual control (keyboard and display), the
  simulator's autopilot, or the decoded control applied to the actor.
\<close>

definition apply_action :: "env \<Rightarrow> actor_id \<Rightarrow> actor_config \<Rightarrow> frame \<Rightarrow> error + unit" where
  "apply_action e a config fr =
     (if manual_control config then
        (if fr_control_ok fr then Inr () else Inl SimulatorError)
      else if auto_control config then
        (case dict_get (actors e) a of
           Inl x \<Rightarrow> Inl x
         | Inr cur \<Rightarrow> sim_query cur (fr_control_ok fr))
      else
        (case dict_get (actors e) a of
           Inl x \<Rightarrow> Inl x
         | Inr cur \<Rightarrow> sim_query cur (fr_control_ok fr)))"

text \<open>
  The measurement log of \<^verbatim>\<open>_step\<close>: the file of an actor is opened on its first logged
  step, under the name of its episode id, and closed on its terminal step.  Only which
  file is open is modelled, not what is written.
\<close>

definition log_measurements_step ::
  "env \<Rightarrow> actor_id \<Rightarrow> actor_config \<Rightarrow> bool \<Rightarrow> frame \<Rightarrow> (error + unit) \<times> env" where
  "log_measurements_step e a config done fr =
     (if log_measurements config \<and> carla_out_path e \<noteq> [] then
        (case dict_get (measurements_file_dict e) a of
           Inl x \<Rightarrow> (Inl x, e)
         | Inr f \<Rightarrow>
        (case (if f = None then dict_get (episode_id_dict e) a else Inr []) of
           Inl x \<Rightarrow> (Inl x, e)
         | Inr eid \<Rightarrow>
             if \<not> fr_log_ok fr then (Inl SimulatorError, e)
             else
               (let e1 = (if f = None
                          then e\<lparr>measurements_file_dict :=
                                   AList.update a (Some eid) (measurements_file_dict e)\<rparr>
                          else e)
                in if done
                   then (Inr (), e1\<lparr>measurements_file_dict :=
                                      AList.update a None (measurements_file_dict e1)\<rparr>)
                   else (Inr (), e1))))
      else (Inr (), e))"

text \<open>
  The termination test of \<^verbatim>\<open>_step\<close>, with Python's short-circuit evaluation.  The step
  budget is read from \<^verbatim>\<open>self.scenario\<close>, the scenario resolved last, for every actor.
\<close>

definition done_of ::
  "int \<Rightarrow> scenario \<Rightarrow> actor_config \<Rightarrow> measurement \<Rightarrow> error + bool" where
  "done_of n scn config py =
     (if n > max_steps scn \<or> m_next_command py = ''REACH_GOAL'' then Inr True
      else if early_terminate_on_collision config then collided_done py
      else Inr False)"

text \<open>\<^verbatim>\<open>_step\<close>, in the order of the source.\<close>

definition step_actor ::
  "env \<Rightarrow> actor_id \<Rightarrow> action \<Rightarrow> frame
     \<Rightarrow> (error + obs \<times> real \<times> bool \<times> measurement) \<times> env" where
  "step_actor e a act fr =
     (case decode_action (discrete_actions e) act of Inl x \<Rightarrow> (Inl x, e) | Inr action \<Rightarrow>
     (case action_control (squash_action_logits e) action of
        Inl x \<Rightarrow> (Inl x, e) | Inr ctl \<Rightarrow>
     (case dict_get (actor_configs e) a of Inl x \<Rightarrow> (Inl x, e) | Inr config \<Rightarrow>
     (case apply_action e a config fr of Inl x \<Rightarrow> (Inl x, e) | Inr _ \<Rightarrow>
     (case read_observation e a fr of Inl x \<Rightarrow> (Inl x, e) | Inr py0 \<Rightarrow>
     (let e1 = e\<lparr>previous_actions := AList.update a action (previous_actions e)\<rparr>;
          py1 = py0\<lparr>m_action := Some action, m_control := Some ctl\<rparr>
      in
     (case dict_get (prev_measurement e1) a of Inl x \<Rightarrow> (Inl x, e1) | Inr _ \<Rightarrow>
     (case fr_reward fr of None \<Rightarrow> (Inl SimulatorError, e1) | Some reward \<Rightarrow>
     (let e2 = e1\<lparr>previous_rewards := AList.update a reward (previous_rewards e1)\<rparr>
      in
     (case dict_get (total_reward e2) a of Inl x \<Rightarrow> (Inl x, e2) | Inr tot \<Rightarrow>
     (let total = (case tot of None \<Rightarrow> reward | Some t \<Rightarrow> t + reward);
          e3 = e2\<lparr>total_reward := AList.update a (Some total) (total_reward e2)\<rparr>;
          py2 = py1\<lparr>m_reward := Some reward, m_total_reward := Some total\<rparr>
      in
     (case dict_get (num_steps e3) a of Inl x \<Rightarrow> (Inl x, e3) | Inr n \<Rightarrow>
     (case scenario e3 of None \<Rightarrow> (Inl TypeError, e3) | Some scn \<Rightarrow>
     (case done_of n scn config py2 of Inl x \<Rightarrow> (Inl x, e3) | Inr done \<Rightarrow>
     (let py3 = py2\<lparr>m_done := Some done\<rparr>;
          e4 = e3\<lparr>prev_measurement := AList.update a py3 (prev_measurement e3),
                  num_steps := AList.update a (n + 1) (num_steps e3)\<rparr>
      in
     (case log_measurements_step e4 a config done fr of
        (Inl x, e5) \<Rightarrow> (Inl x, e5) | (Inr _, e5) \<Rightarrow>
     (case dict_get (cameras e5) a of Inl x \<Rightarrow> (Inl x, e5) | Inr _ \<Rightarrow>
     (case fr_image fr of None \<Rightarrow> (Inl SimulatorError, e5) | Some img \<Rightarrow>
     (case encode_obs e5 a img py3 of
        (Inl x, e6) \<Rightarrow> (Inl x, e6)
      | (Inr ob, e6) \<Rightarrow> (Inr (ob, reward, done, py3), e6))))))))))))))))))))"

section \<open>The public step\<close>

text \<open>
  \<^verbatim>\<open>clear_server_state\<close>: drops the client handle and kills the server process (the
  operating-system calls on the process the environment launched itself are taken to
  succeed; the module-level set of live processes is not part of the model).
\<close>

definition clear_server_state :: "env \<Rightarrow> env" where
  "clear_server_state e =
     (let e1 = (if client e \<noteq> None then e\<lparr>client := None\<rparr> else e)
      in if server_process e1 \<noteq> None
         then e1\<lparr>server_port := None, server_process := None\<rparr>
         else e1)"

text \<open>
  What \<^verbatim>\<open>step\<close> hands back is dynamically typed: an exception, the four dictionaries of
  the normal path, or the tuple \<^verbatim>\<open>(self.last_obs, 0.0, True, {})\<close> of the handler.  The
  argument is a dictionary (in insertion order) or some other object.
\<close>

datatype step_arg = ActionDict "(actor_id \<times> action) list" | NotADict

datatype step_result =
    Raised error
  | Normal "(actor_id \<times> obs) list" "(actor_id \<times> real) list" "(string \<times> bool) list"
      "(actor_id \<times> measurement) list"
  | Degraded "obs option" real bool "(actor_id \<times> measurement) list"

text \<open>The loop of \<^verbatim>\<open>step\<close> over \<^verbatim>\<open>action_dict.items()\<close>, stopped by the first exception.\<close>

fun step_loop ::
  "env \<Rightarrow> (actor_id \<times> action) list \<Rightarrow> (actor_id \<Rightarrow> frame)
     \<Rightarrow> (actor_id \<times> obs) list \<Rightarrow> (actor_id \<times> real) list \<Rightarrow> (actor_id \<times> measurement) list
     \<Rightarrow> (error + (actor_id \<times> obs) list \<times> (actor_id \<times> real) list
                   \<times> (actor_id \<times> measurement) list) \<times> env" where
  "step_loop e [] sim od rd idd = (Inr (od, rd, idd), e)"
| "step_loop e ((a, act) # rest) sim od rd idd =
     (case step_actor e a act (sim a) of
        (Inl x, e1) \<Rightarrow> (Inl x, e1)
      | (Inr (ob, reward, done, info), e1) \<Rightarrow>
          (let e2 = e1\<lparr>done_dict := AList.update a done (done_dict e1)\<rparr>;
               e3 = (if done then e2\<lparr>dones := insert a (dones e2)\<rparr> else e2)
           in step_loop e3 rest sim (AList.update a ob od) (AList.update a reward rd)
                (AList.update a info idd)))"

text \<open>
  \<^verbatim>\<open>step\<close>: the four checks before the \<^verbatim>\<open>try\<close>, the loop, and the handler.  The done
  dictionary of a normal result is \<^verbatim>\<open>self.done_dict\<close> itself, with the entries of all
  actors stepped so far; the model hands back its value at the time of the return.
\<close>

definition step :: "env \<Rightarrow> step_arg \<Rightarrow> (actor_id \<Rightarrow> frame) \<Rightarrow> step_result \<times> env" where
  "step e arg sim =
     (if server_process e = None \<or> client e = None then (Raised RuntimeError, e)
      else if length (actors e) = 0 then (Raised AssertionError, e)
      else
        (case arg of
           NotADict \<Rightarrow> (Raised ValueError, e)
         | ActionDict action_dict \<Rightarrow>
             if \<not> set (map fst action_dict) \<subseteq> set (map fst (actors e))
             then (Raised ValueError, e)
             else
               (case step_loop e action_dict sim [] [] [] of
                  (Inl x, e1) \<Rightarrow>
                    (Degraded (last_obs e1) 0 True [], clear_server_state e1)
                | (Inr (od, rd, idd), e1) \<Rightarrow>
                    (let e2 = e1\<lparr>done_dict :=
                                   AList.update ''__all__''
                                     (card (dones e1) = length (actors e1))
                                     (done_dict e1)\<rparr>
                     in (Normal od rd (done_dict e2) idd, e2)))))"

section \<open>Reset\<close>

text \<open>
  What the outside world answers while one actor is (re)spawned by \<^verbatim>\<open>_reset\<close>: the clock
  read for the episode id, the index drawn by \<^verbatim>\<open>random.choice\<close> among the scenarios, the
  outcome of each \<^verbatim>\<open>try_spawn_actor\<close> (the vehicle and the height of its location), which
  simulator calls succeed (the blueprint library, the location printed after the spawn,
  the move of a soft reset, the three sensors), and the frame of the initial measurement.
\<close>

record spawn_world =
  rw_now :: string
  rw_pick :: nat
  rw_blueprint_ok :: bool
  rw_spawn :: "nat \<Rightarrow> nat option \<times> real"
  rw_location_ok :: bool
  rw_transform_ok :: bool
  rw_collision_ok :: bool
  rw_lane_ok :: bool
  rw_camera_ok :: bool
  rw_frame :: frame

text \<open>
  One attempt of \<^verbatim>\<open>reset\<close>: the free port, the process id of the launched server
  (\<open>None\<close> when both launches raised), which connection attempt is answered, whether the
  world can be fetched, and the answers for each actor.
\<close>

record attempt_world =
  aw_port :: nat
  aw_launch :: "nat option"
  aw_connect :: "nat \<Rightarrow> bool"
  aw_world_ok :: bool
  aw_actor :: "actor_id \<Rightarrow> spawn_world"

definition scenario_names :: "string list" where
  "scenario_names =
     [''DEFAULT_SCENARIO_TOWN1'', ''DEFAULT_SCENARIO_TOWN1_2'', ''DEFAULT_SCENARIO_TOWN2'',
      ''TOWN1_STRAIGHT'', ''CURVE_TOWN1'', ''CURVE_TOWN2'', ''DEFAULT_CURVE_TOWN1'']"

text \<open>\<^verbatim>\<open>get_scenarios\<close> returns \<^verbatim>\<open>None\<close> for a name it does not know.\<close>

definition get_scenarios :: "(string \<Rightarrow> scenario_entry) \<Rightarrow> string \<Rightarrow> scenario_entry option" where
  "get_scenarios tbl choice =
     (if choice \<in> set scenario_names then Some (tbl choice) else None)"

text \<open>
  The client loop of \<^verbatim>\<open>init_server\<close> retries until the server answers; it need not
  terminate, so it is a partial function and \<open>None\<close> stands for a call that never returns.
\<close>

partial_function (option) connect_loop :: "(nat \<Rightarrow> bool) \<Rightarrow> nat \<Rightarrow> nat option" where
  "connect_loop ok i = (if ok i then Some i else connect_loop ok (Suc i))"

definition init_server :: "env \<Rightarrow> attempt_world \<Rightarrow> ((error + unit) \<times> env) option" where
  "init_server e aw =
     (let e1 = e\<lparr>server_port := Some (aw_port aw)\<rparr>
      in case aw_launch aw of
           None \<Rightarrow> Some (Inl AttributeError, e1)
         | Some pid \<Rightarrow>
             (let e2 = e1\<lparr>server_process := Some pid, client := None\<rparr>
              in case connect_loop (aw_connect aw) 0 of
                   None \<Rightarrow> None
                 | Some _ \<Rightarrow> Some (Inr (), e2\<lparr>client := Some (aw_port aw)\<rparr>)))"

text \<open>
  The retry loop of \<^verbatim>\<open>spawn_new_agent\<close>: it stops at the first vehicle that rests above
  the ground, and otherwise returns whatever the last attempt returned.
\<close>

fun spawn_loop ::
  "(nat \<Rightarrow> nat option \<times> real) \<Rightarrow> nat \<Rightarrow> nat \<Rightarrow> nat option \<Rightarrow> nat option" where
  "spawn_loop f i 0 vehicle = vehicle"
| "spawn_loop f i (Suc k) vehicle =
     (case f i of
        (v, z) \<Rightarrow> if v \<noteq> None \<and> z > 0 then v else spawn_loop f (Suc i) k v)"

definition spawn_new_agent :: "env \<Rightarrow> actor_id \<Rightarrow> spawn_world \<Rightarrow> error + nat option" where
  "spawn_new_agent e a sw =
     (if \<not> rw_blueprint_ok sw then Inl SimulatorError
      else (case dict_get (start_pos e) a of
              Inl x \<Rightarrow> Inl x
            | Inr _ \<Rightarrow> Inr (spawn_loop (rw_spawn sw) 0 RETRIES_ON_ERROR None)))"

text \<open>The soft reset: the live actor is moved back to its start pose.\<close>

definition soft_reset :: "env \<Rightarrow> actor_id \<Rightarrow> spawn_world \<Rightarrow> (error + unit) \<times> env" where
  "soft_reset e a sw =
     (case dict_get (start_pos e) a of
        Inl x \<Rightarrow> (Inl x, e)
      | Inr _ \<Rightarrow>
          (case dict_get (actors e) a of
             Inl x \<Rightarrow> (Inl x, e)
           | Inr cur \<Rightarrow> (sim_query cur (rw_transform_ok sw), e)))"

text \<open>
  The respawn from scratch: a new episode id, a scenario resolved from the actor's
  configuration, start and end positions from the node table, and a spawned vehicle.
  The registry keeps the entry \<^verbatim>\<open>None\<close> when the spawn failed.
\<close>

definition hard_reset ::
  "env \<Rightarrow> actor_id \<Rightarrow> actor_config \<Rightarrow> spawn_world \<Rightarrow> (error + unit) \<times> env" where
  "hard_reset e a cfg sw =
     (let e1 = e\<lparr>measurements_file_dict := AList.update a None (measurements_file_dict e),
                 episode_id_dict := AList.update a (rw_now sw) (episode_id_dict e)\<rparr>
      in
     (case (case get_scenarios (scenarios_module e1) (scenarios cfg) of
              None \<Rightarrow> Inl TypeError
            | Some (Single s) \<Rightarrow> Inr s
            | Some (Many ss) \<Rightarrow>
                if ss = [] then Inl IndexError
                else Inr (ss ! (rw_pick sw mod length ss))) of
        Inl x \<Rightarrow> (Inl x, e1)
      | Inr s \<Rightarrow>
     (let e2 = e1\<lparr>scenario_map := AList.update a s (scenario_map e1),
                  scenario := Some s\<rparr>
      in
     (case dict_get (pos_coor_map e2) (start_pos_id s) of
        Inl x \<Rightarrow> (Inl x, e2)
      | Inr sp \<Rightarrow>
     (let e3 = e2\<lparr>start_pos := AList.update a sp (start_pos e2)\<rparr>
      in
     (case dict_get (pos_coor_map e3) (end_pos_id s) of
        Inl x \<Rightarrow> (Inl x, e3)
      | Inr ep \<Rightarrow>
     (let e4 = e3\<lparr>end_pos := AList.update a ep (end_pos e3)\<rparr>
      in
     (case spawn_new_agent e4 a sw of
        Inl x \<Rightarrow> (Inl x, e4)
      | Inr vehicle \<Rightarrow>
          (let e5 = e4\<lparr>actors := AList.update a vehicle (actors e4)\<rparr>
           in if vehicle = None then (Inl RuntimeError, e5)
              else if \<not> rw_location_ok sw then (Inl SimulatorError, e5)
              else (Inr (), e5))))))))))"

text \<open>
  After either reset: the sensors the configuration switches on, the camera, and the
  coarse start and end coordinates (\<^verbatim>\<open>// 100\<close>).
\<close>

definition attach_sensors ::
  "env \<Rightarrow> actor_id \<Rightarrow> actor_config \<Rightarrow> spawn_world \<Rightarrow> (error + unit) \<times> env" where
  "attach_sensors e a cfg sw =
     (case (case dict_get (actors e) a of
              Inl x \<Rightarrow> Inl x
            | Inr None \<Rightarrow> Inl AttributeError
            | Inr (Some h) \<Rightarrow> Inr h) of
        Inl x \<Rightarrow> (Inl x, e)
      | Inr h \<Rightarrow>
     (case (if collision_sensor cfg = ''on''
            then (if rw_collision_ok sw
                  then Inr (e\<lparr>collisions := AList.update a h (collisions e)\<rparr>)
                  else Inl SimulatorError)
            else Inr e) of
        Inl x \<Rightarrow> (Inl x, e)
      | Inr e1 \<Rightarrow>
     (case (if lane_sensor cfg = ''on''
            then (if rw_lane_ok sw
                  then Inr (e1\<lparr>lane_invasions := AList.update a h (lane_invasions e1)\<rparr>)
                  else Inl SimulatorError)
            else Inr e1) of
        Inl x \<Rightarrow> (Inl x, e1)
      | Inr e2 \<Rightarrow>
          if \<not> rw_camera_ok sw then (Inl SimulatorError, e2)
          else
            (let e3 = e2\<lparr>cameras := AList.update a h (cameras e2)\<rparr>
             in
            (case dict_get (start_pos e3) a of
               Inl x \<Rightarrow> (Inl x, e3)
             | Inr (sx, sy, sz) \<Rightarrow>
            (let e4 = e3\<lparr>start_coord :=
                           AList.update a (\<lfloor>sx / 100\<rfloor>, \<lfloor>sy / 100\<rfloor>) (start_coord e3)\<rparr>
             in
            (case dict_get (end_pos e4) a of
               Inl x \<Rightarrow> (Inl x, e4)
             | Inr (ex, ey, ez) \<Rightarrow>
                 (Inr (), e4\<lparr>end_coord :=
                               AList.update a (\<lfloor>ex / 100\<rfloor>, \<lfloor>ey / 100\<rfloor>)
                                 (end_coord e4)\<rparr>))))))))"

text \<open>
  The body of the first loop of \<^verbatim>\<open>_reset\<close>: an actor with no done entry yet is marked
  done; an actor marked done is reset softly when the registry has an entry for it and
  respawned from scratch otherwise; an actor that is not done is left alone.
\<close>

definition reset_actor ::
  "env \<Rightarrow> actor_id \<Rightarrow> actor_config \<Rightarrow> spawn_world \<Rightarrow> (error + unit) \<times> env" where
  "reset_actor e a cfg sw =
     (let e1 = (if map_of (done_dict e) a = None
                then e\<lparr>done_dict := AList.update a True (done_dict e)\<rparr>
                else e)
      in if map_of (done_dict e1) a = Some True then
           (case (if a \<in> set (map fst (actors e1))
                  then soft_reset e1 a sw
                  else hard_reset e1 a cfg sw) of
              (Inl x, e2) \<Rightarrow> (Inl x, e2)
            | (Inr _, e2) \<Rightarrow> attach_sensors e2 a cfg sw)
         else (Inr (), e1))"

fun reset_actors ::
  "env \<Rightarrow> (actor_id \<times> actor_config) list \<Rightarrow> (actor_id \<Rightarrow> spawn_world)
     \<Rightarrow> (error + unit) \<times> env" where
  "reset_actors e [] w = (Inr (), e)"
| "reset_actors e ((a, cfg) # rest) w =
     (case reset_actor e a cfg (w a) of
        (Inl x, e1) \<Rightarrow> (Inl x, e1)
      | (Inr _, e1) \<Rightarrow> reset_actors e1 rest w)"

text \<open>
  The body of the second loop of \<^verbatim>\<open>_reset\<close>, over the cameras: the initial values of an
  actor marked done, its first measurement and its first observation.
\<close>

definition init_observation ::
  "env \<Rightarrow> actor_id \<Rightarrow> spawn_world \<Rightarrow> (error + unit) \<times> env" where
  "init_observation e a sw =
     (if map_of (done_dict e) a = Some True then
        (let e1 = e\<lparr>last_reward := AList.update a None (last_reward e),
                    total_reward := AList.update a None (total_reward e),
                    num_steps := AList.update a 0 (num_steps e)\<rparr>
         in
        (case read_observation e1 a (rw_frame sw) of
           Inl x \<Rightarrow> (Inl x, e1)
         | Inr py \<Rightarrow>
        (let e2 = e1\<lparr>prev_measurement := AList.update a py (prev_measurement e1)\<rparr>
         in
        (case dict_get (actor_configs e2) a of
           Inl x \<Rightarrow> (Inl x, e2)
         | Inr _ \<Rightarrow>
        (case fr_image (rw_frame sw) of
           None \<Rightarrow> (Inl SimulatorError, e2)
         | Some img \<Rightarrow>
        (case encode_obs e2 a img py of
           (Inl x, e3) \<Rightarrow> (Inl x, e3)
         | (Inr ob, e3) \<Rightarrow>
             (Inr (), e3\<lparr>obs_dict := AList.update a ob (obs_dict e3)\<rparr>)))))))
      else (Inr (), e))"

fun init_observations ::
  "env \<Rightarrow> actor_id list \<Rightarrow> (actor_id \<Rightarrow> spawn_world) \<Rightarrow> (error + unit) \<times> env" where
  "init_observations e [] w = (Inr (), e)"
| "init_observations e (a # rest) w =
     (case init_observation e a (w a) of
        (Inl x, e1) \<Rightarrow> (Inl x, e1)
      | (Inr _, e1) \<Rightarrow> init_observations e1 rest w)"

text \<open>\<^verbatim>\<open>_reset\<close>: the world is fetched through the client, then the two loops.\<close>

definition reset_inner ::
  "env \<Rightarrow> attempt_world \<Rightarrow> (error + (actor_id \<times> obs) list) \<times> env" where
  "reset_inner e aw =
     (case sim_query (client e) (aw_world_ok aw) of
        Inl x \<Rightarrow> (Inl x, e)
      | Inr _ \<Rightarrow>
          (case reset_actors e (actor_configs e) (aw_actor aw) of
             (Inl x, e1) \<Rightarrow> (Inl x, e1)
           | (Inr _, e1) \<Rightarrow>
               (case init_observations e1 (map fst (cameras e1)) (aw_actor aw) of
                  (Inl x, e2) \<Rightarrow> (Inl x, e2)
                | (Inr _, e2) \<Rightarrow> (Inr (obs_dict e2), e2))))"

text \<open>
  \<^verbatim>\<open>reset\<close>: up to \<open>RETRIES_ON_ERROR\<close> attempts; an attempt that raises clears the server
  state and the next attempt starts a new server; the last error is raised when every
  attempt failed.  \<open>None\<close> is a call that never returns (the client loop).
\<close>

fun reset_loop ::
  "env \<Rightarrow> (nat \<Rightarrow> attempt_world) \<Rightarrow> nat \<Rightarrow> nat \<Rightarrow> error option
     \<Rightarrow> ((error + (actor_id \<times> obs) list) \<times> env) option" where
  "reset_loop e w retry 0 err =
     Some (case err of None \<Rightarrow> Inl TypeError | Some x \<Rightarrow> Inl x, e)"
| "reset_loop e w retry (Suc k) err =
     (case (if server_process e = None then init_server e (w retry)
            else Some (Inr (), e)) of
        None \<Rightarrow> None
      | Some (Inl x, e1) \<Rightarrow> reset_loop (clear_server_state e1) w (Suc retry) k (Some x)
      | Some (Inr _, e1) \<Rightarrow>
          (case reset_inner e1 (w retry) of
             (Inl x, e2) \<Rightarrow> reset_loop (clear_server_state e2) w (Suc retry) k (Some x)
           | (Inr od, e2) \<Rightarrow> Some (Inr od, e2)))"

definition reset ::
  "env \<Rightarrow> (nat \<Rightarrow> attempt_world)
     \<Rightarrow> ((error + (actor_id \<times> obs) list) \<times> env) option" where
  "reset e w = reset_loop e w 0 RETRIES_ON_ERROR None"

section \<open>Reachable states\<close>

text \<open>
  The states an environment goes through: built by \<^verbatim>\<open>__init__\<close> from a dictionary of
  actor configurations (distinct keys), then any sequence of \<^verbatim>\<open>reset\<close> and \<^verbatim>\<open>step\<close> calls
  that return or raise, against any behaviour of the outside world.
\<close>

inductive reachable :: "env \<Rightarrow> bool" where
  reachable_init:
    "distinct (map fst acfgs)
     \<Longrightarrow> reachable (init_env fs discrete squash acfgs tbl coords out_path)"
| reachable_reset:
    "reachable e \<Longrightarrow> reset e w = Some (r, e') \<Longrightarrow> reachable e'"
| reachable_step:
    "reachable e \<Longrightarrow> step e arg sim = (r, e') \<Longrightarrow> reachable e'"

section \<open>Sequences of calls and invariants\<close>

text \<open>A sequence of \<^verbatim>\<open>step\<close> calls, each with its argument and the world's answers.\<close>

fun run_steps ::
  "env \<Rightarrow> (step_arg \<times> (actor_id \<Rightarrow> frame)) list \<Rightarrow> step_result list \<times> env" where
  "run_steps e [] = ([], e)"
| "run_steps e ((arg, sim) # calls) =
     (case step e arg sim of
        (r, e1) \<Rightarrow> (case run_steps e1 calls of (rs, e2) \<Rightarrow> (r # rs, e2)))"

text \<open>The rewards an actor was handed by the calls that returned normally, in order.\<close>

fun rewards_of :: "actor_id \<Rightarrow> step_result list \<Rightarrow> real list" where
  "rewards_of a [] = []"
| "rewards_of a (Normal od rd dd idd # rs) =
     (case map_of rd a of None \<Rightarrow> rewards_of a rs | Some r \<Rightarrow> r # rewards_of a rs)"
| "rewards_of a (_ # rs) = rewards_of a rs"

fun is_normal :: "step_result \<Rightarrow> bool" where
  "is_normal (Normal _ _ _ _) = True"
| "is_normal _ = False"

text \<open>An argument that is a dictionary has distinct keys.\<close>

fun dict_arg :: "step_arg \<Rightarrow> bool" where
  "dict_arg (ActionDict action_dict) = distinct (map fst action_dict)"
| "dict_arg NotADict = True"

text \<open>
  The running total after one more reward: \<^verbatim>\<open>self.total_reward[actor_id]\<close> is \<^verbatim>\<open>None\<close> until
  the first reward, which replaces it; every later reward is added.
\<close>

definition add_reward :: "real option \<Rightarrow> real \<Rightarrow> real option" where
  "add_reward tot reward = Some (case tot of None \<Rightarrow> reward | Some t \<Rightarrow> t + reward)"

text \<open>
  The reward that \<^verbatim>\<open>_step\<close> computes for an actor: the statements of \<^verbatim>\<open>_step\<close> up to the
  call of \<^verbatim>\<open>compute_reward\<close>.  \<open>Inl\<close> is the exception that \<^verbatim>\<open>_step\<close> raises before it has a
  reward.  The statements that follow store the reward in \<^verbatim>\<open>previous_rewards\<close> and add it
  to the running total.
\<close>

definition step_actor_reward :: "env \<Rightarrow> actor_id \<Rightarrow> action \<Rightarrow> frame \<Rightarrow> error + real" where
  "step_actor_reward e a act fr =
     (case decode_action (discrete_actions e) act of Inl x \<Rightarrow> Inl x | Inr action \<Rightarrow>
     (case action_control (squash_action_logits e) action of Inl x \<Rightarrow> Inl x | Inr ctl \<Rightarrow>
     (case dict_get (actor_configs e) a of Inl x \<Rightarrow> Inl x | Inr config \<Rightarrow>
     (case apply_action e a config fr of Inl x \<Rightarrow> Inl x | Inr _ \<Rightarrow>
     (case read_observation e a fr of Inl x \<Rightarrow> Inl x | Inr py0 \<Rightarrow>
     (case dict_get (prev_measurement e) a of Inl x \<Rightarrow> Inl x | Inr _ \<Rightarrow>
     (case fr_reward fr of None \<Rightarrow> Inl SimulatorError | Some reward \<Rightarrow> Inr reward)))))))"

text \<open>
  The rewards that the \<^verbatim>\<open>_step\<close> calls of the loop of \<^verbatim>\<open>step\<close> compute for one actor, in
  order.  The loop stops at the first \<^verbatim>\<open>_step\<close> that raises; that \<^verbatim>\<open>_step\<close> may have
  computed its reward before it raised.
\<close>

fun step_loop_rewards ::
  "env \<Rightarrow> (actor_id \<times> action) list \<Rightarrow> (actor_id \<Rightarrow> frame) \<Rightarrow> actor_id \<Rightarrow> real list" where
  "step_loop_rewards e [] sim a = []"
| "step_loop_rewards e ((b, act) # rest) sim a =
     (case step_actor_reward e b act (sim b) of
        Inl x \<Rightarrow> []
      | Inr reward \<Rightarrow> if b = a then [reward] else [])
     @ (case step_actor e b act (sim b) of
          (Inl x, e1) \<Rightarrow> []
        | (Inr (ob, reward, done, info), e1) \<Rightarrow>
            (let e2 = e1\<lparr>done_dict := AList.update b done (done_dict e1)\<rparr>;
                 e3 = (if done then e2\<lparr>dones := insert b (dones e2)\<rparr> else e2)
             in step_loop_rewards e3 rest sim a))"

text \<open>The same for a call of \<^verbatim>\<open>step\<close>: a call that raises has executed no \<^verbatim>\<open>_step\<close>.\<close>

definition step_rewards ::
  "env \<Rightarrow> step_arg \<Rightarrow> (actor_id \<Rightarrow> frame) \<Rightarrow> actor_id \<Rightarrow> real list" where
  "step_rewards e arg sim a =
     (case fst (step e arg sim) of
        Raised x \<Rightarrow> []
      | _ \<Rightarrow> (case arg of
                NotADict \<Rightarrow> []
              | ActionDict action_dict \<Rightarrow> step_loop_rewards e action_dict sim a))"

text \<open>
  A sequence of \<^verbatim>\<open>reset\<close> and \<^verbatim>\<open>step\<close> calls, each with the answers of the outside world.
  Beside the state, the run keeps for one actor the rewards that \<^verbatim>\<open>_step\<close> has computed
  for it since the last \<^verbatim>\<open>reset\<close> that left its running total at \<^verbatim>\<open>None\<close> (\<open>None\<close>: there
  was no such \<^verbatim>\<open>reset\<close> so far).  The run is \<open>None\<close> when a \<^verbatim>\<open>reset\<close> never returns.
\<close>

datatype call = Reset_call "nat \<Rightarrow> attempt_world" | Step_call step_arg "actor_id \<Rightarrow> frame"

fun run_calls ::
  "actor_id \<Rightarrow> env \<Rightarrow> real list option \<Rightarrow> call list \<Rightarrow> (real list option \<times> env) option" where
  "run_calls a e seen [] = Some (seen, e)"
| "run_calls a e seen (Step_call arg sim # calls) =
     run_calls a (snd (step e arg sim))
       (map_option (\<lambda>rs. rs @ step_rewards e arg sim a) seen) calls"
| "run_calls a e seen (Reset_call w # calls) =
     (case reset e w of
        None \<Rightarrow> None
      | Some (r, e1) \<Rightarrow>
          run_calls a e1
            (if map_of (total_reward e1) a = Some None then Some [] else seen) calls)"

text \<open>
  The registry invariant: the registry has distinct keys and the done set holds only
  registered actors.
\<close>

definition registry_inv :: "env \<Rightarrow> bool" where
  "registry_inv e \<longleftrightarrow>
     distinct (map fst (actors e)) \<and> dones e \<subseteq> set (map fst (actors e))"

text \<open>
  The sensor invariant: the configuration has distinct keys, and an actor has a collision
  (lane-invasion) sensor entry only if its configuration switches that sensor on.
\<close>

definition sensors_inv :: "env \<Rightarrow> bool" where
  "sensors_inv e \<longleftrightarrow>
     distinct (map fst (actor_configs e))
     \<and> (\<forall>a cfg. a \<in> set (map fst (collisions e)) \<longrightarrow> (a, cfg) \<in> set (actor_configs e)
           \<longrightarrow> collision_sensor cfg = ''on'')
     \<and> (\<forall>a cfg. a \<in> set (map fst (lane_invasions e)) \<longrightarrow> (a, cfg) \<in> set (actor_configs e)
           \<longrightarrow> lane_sensor cfg = ''on'')"

text \<open>
  The frame of \<^verbatim>\<open>_step\<close>: two states that differ at most in the fields that \<^verbatim>\<open>_step\<close>
  and \<^verbatim>\<open>encode_obs\<close> assign.
\<close>

definition step_frame :: "env \<Rightarrow> env \<Rightarrow> bool" where
  "step_frame e e' \<longleftrightarrow>
     e'\<lparr>previous_actions := previous_actions e, previous_rewards := previous_rewards e,
        total_reward := total_reward e, prev_measurement := prev_measurement e,
        num_steps := num_steps e, measurements_file_dict := measurements_file_dict e,
        prev_image := prev_image e, last_obs := last_obs e\<rparr> = e"

text \<open>
  Whether \<^verbatim>\<open>_reset\<close> respawns an actor from scratch: the actor is marked done (or has no
  done entry yet) and the registry has no entry for it.
\<close>

definition hard_respawn :: "env \<Rightarrow> actor_id \<Rightarrow> bool" where
  "hard_respawn e a \<longleftrightarrow>
     map_of (done_dict e) a \<noteq> Some False \<and> a \<notin> set (map fst (actors e))"

section \<open>Example environments\<close>

text \<open>
  Small concrete environments on which the theorems below are evaluated: a world in
  which every call succeeds, the planner says \<^verbatim>\<open>LANE_FOLLOW\<close>, nothing collides and every
  reward is 1.
\<close>

definition ex_frame :: "image \<Rightarrow> frame" where
  "ex_frame img =
     \<lparr>fr_control_ok = True, fr_query_ok = True, fr_command = 2,
      fr_x = 0, fr_y = 0, fr_pitch = 0, fr_yaw = 0, fr_roll = 0, fr_speed = 0,
      fr_path_distance = 100,
      fr_collision_vehicles = 0, fr_collision_pedestrians = 0, fr_collision_other = 0,
      fr_offlane = 0, fr_offroad = 0, fr_reward = Some 1, fr_image = Some img,
      fr_log_ok = True\<rparr>"

definition ex_cfg :: "string \<Rightarrow> string \<Rightarrow> actor_config" where
  "ex_cfg scn sensor =
     \<lparr>enable_planner = True, early_terminate_on_collision = True,
      reward_function = ''corl2017'', scenarios = scn, manual_control = False,
      auto_control = False, collision_sensor = sensor, lane_sensor = ''on'',
      send_measurements = False, log_images = False, log_measurements = False\<rparr>"

definition ex_scenario :: "int \<Rightarrow> scenario" where
  "ex_scenario n =
     \<lparr>start_pos_id = 36, end_pos_id = 40, num_vehicles = 0, num_pedestrians = 0,
      max_steps = n\<rparr>"

definition ex_table :: "string \<Rightarrow> scenario_entry" where
  "ex_table name =
     (if name = ''TOWN1_STRAIGHT'' then Single (ex_scenario 2) else Single (ex_scenario 10))"

definition ex_spawn :: "nat \<Rightarrow> image \<Rightarrow> spawn_world" where
  "ex_spawn h img =
     \<lparr>rw_now = ''2019-01-01_00-00-00_000000'', rw_pick = 0, rw_blueprint_ok = True,
      rw_spawn = (\<lambda>i. (Some h, 1)), rw_location_ok = True, rw_transform_ok = True,
      rw_collision_ok = True,
      rw_lane_ok = True, rw_camera_ok = True, rw_frame = ex_frame img\<rparr>"

definition ex_world :: "nat \<Rightarrow> attempt_world" where
  "ex_world retry =
     \<lparr>aw_port = 2000, aw_launch = Some 4242, aw_connect = (\<lambda>i. True), aw_world_ok = True,
      aw_actor = (\<lambda>a. if a = ''car1'' then ex_spawn 7 [[1]] else ex_spawn 8 [[2]])\<rparr>"

definition ex_init :: "(actor_id \<times> actor_config) list \<Rightarrow> env" where
  "ex_init acfgs =
     init_env 2 True False acfgs ex_table [(36, (0, 0, 22)), (40, (100, 0, 22))] ''out''"

text \<open>One actor, two actors with different scenarios, and one actor without a collision
  sensor; each environment is reset once.\<close>

definition ex_one :: env where
  "ex_one = snd (the (reset (ex_init [(''car1'', ex_cfg ''TOWN1_STRAIGHT'' ''on'')]) ex_world))"

definition ex_two_init :: env where
  "ex_two_init =
     ex_init [(''car1'', ex_cfg ''TOWN1_STRAIGHT'' ''on''), (''car2'', ex_cfg ''CURVE_TOWN1'' ''on'')]"

definition ex_two :: env where
  "ex_two = snd (the (reset ex_two_init ex_world))"

definition ex_none :: env where
  "ex_none = snd (the (reset (ex_init []) ex_world))"

definition ex_off_init :: env where
  "ex_off_init = ex_init [(''car1'', ex_cfg ''TOWN1_STRAIGHT'' ''off'')]"

text \<open>The answers of a world in which every call succeeds, and of one in which the
  simulator refuses the control.\<close>

definition ex_sim :: "actor_id \<Rightarrow> frame" where
  "ex_sim a = ex_frame [[3]]"

definition ex_sim_fault :: "actor_id \<Rightarrow> frame" where
  "ex_sim_fault a = (ex_frame [[3]])\<lparr>fr_control_ok := False\<rparr>"

text \<open>The environment that an actor without a collision sensor leaves after \<^verbatim>\<open>reset\<close>, and
  a world that answers a later reset: another clock reading, another image.\<close>

definition ex_off :: env where
  "ex_off = snd (the (reset ex_off_init ex_world))"

definition ex_world_later :: "nat \<Rightarrow> attempt_world" where
  "ex_world_later retry =
     (ex_world retry)\<lparr>aw_actor :=
        (\<lambda>a. (ex_spawn 9 [[4]])\<lparr>rw_now := ''2019-01-01_00-05-00_000000''\<rparr>)\<rparr>"

text \<open>A world in which every call succeeds and the reward is the given one.\<close>

definition ex_sim_reward :: "real \<Rightarrow> actor_id \<Rightarrow> frame" where
  "ex_sim_reward r a = (ex_frame [[3]])\<lparr>fr_reward := Some r\<rparr>"

text \<open>
  A frame with a reward and no camera image (\<^verbatim>\<open>_step\<close> raises after it has added the
  reward), a sequence of calls on the environment of \<^verbatim>\<open>car1\<close>, and frames with one image
  per actor.
\<close>

definition ex_sim_blind :: "real \<Rightarrow> actor_id \<Rightarrow> frame" where
  "ex_sim_blind r a = (ex_frame [[3]])\<lparr>fr_reward := Some r, fr_image := None\<rparr>"

definition ex_calls :: "call list" where
  "ex_calls =
     [Step_call (ActionDict [(''car1'', Index 3)]) (ex_sim_reward 1),
      Step_call (ActionDict [(''car1'', Index 3)]) (ex_sim_blind (- 4)),
      Step_call (ActionDict [(''car1'', Index 3)]) ex_sim,
      Reset_call ex_world,
      Step_call (ActionDict [(''car1'', Index 3)]) (ex_sim_reward (5 / 2))]"



text \<open>The done flag that a result holds for an actor.\<close>

fun done_flag :: "actor_id \<Rightarrow> step_result \<Rightarrow> bool option" where
  "done_flag a (Normal od rd dd idd) = map_of dd a"
| "done_flag a _ = None"

section \<open>What the operations keep\<close>

subsection \<open>One step of one actor\<close>

lemma step_frame_refl [simp]: "step_frame e e"
  by (simp add: step_frame_def)

lemma step_frame_upd [simp]:
  "step_frame e (e2\<lparr>previous_actions := a1\<rparr>) = step_frame e e2"
  "step_frame e (e2\<lparr>previous_rewards := a2\<rparr>) = step_frame e e2"
  "step_frame e (e2\<lparr>total_reward := a3\<rparr>) = step_frame e e2"
  "step_frame e (e2\<lparr>prev_measurement := a4\<rparr>) = step_frame e e2"
  "step_frame e (e2\<lparr>num_steps := a5\<rparr>) = step_frame e e2"
  "step_frame e (e2\<lparr>measurements_file_dict := a6\<rparr>) = step_frame e e2"
  "step_frame e (e2\<lparr>prev_image := a7\<rparr>) = step_frame e e2"
  "step_frame e (e2\<lparr>last_obs := a8\<rparr>) = step_frame e e2"
  by (simp_all add: step_frame_def)

lemma step_frame_encode_obs [simp]:
  "step_frame e (snd (encode_obs e2 a img py)) = step_frame e e2"
  by (simp add: encode_obs_def Let_def split: sum.split)

lemma step_frame_log [simp]:
  "step_frame e (snd (log_measurements_step e2 a cfg d fr)) = step_frame e e2"
  by (simp add: log_measurements_step_def Let_def split: sum.split)

lemma step_frame_step_actor: "step_frame e (snd (step_actor e a act fr))"
  by (simp add: step_actor_def Let_def split_beta split: sum.split option.split)

lemma step_frameD:
  assumes "step_frame e e'"
  shows "actors e' = actors e" and "actor_configs e' = actor_configs e"
    and "episode_id_dict e' = episode_id_dict e" and "collisions e' = collisions e"
    and "lane_invasions e' = lane_invasions e" and "cameras e' = cameras e"
    and "done_dict e' = done_dict e" and "dones e' = dones e"
    and "server_process e' = server_process e" and "client e' = client e"
    and "scenario e' = scenario e" and "scenario_map e' = scenario_map e"
    and "framestack e' = framestack e"
proof -
  let ?e = "e'\<lparr>previous_actions := previous_actions e, previous_rewards := previous_rewards e,
        total_reward := total_reward e, prev_measurement := prev_measurement e,
        num_steps := num_steps e, measurements_file_dict := measurements_file_dict e,
        prev_image := prev_image e, last_obs := last_obs e\<rparr>"
  have eq: "?e = e" using assms by (simp add: step_frame_def)
  show "actors e' = actors e" using arg_cong [OF eq, of actors] by simp
  show "actor_configs e' = actor_configs e" using arg_cong [OF eq, of actor_configs] by simp
  show "episode_id_dict e' = episode_id_dict e" using arg_cong [OF eq, of episode_id_dict] by simp
  show "collisions e' = collisions e" using arg_cong [OF eq, of collisions] by simp
  show "lane_invasions e' = lane_invasions e" using arg_cong [OF eq, of lane_invasions] by simp
  show "cameras e' = cameras e" using arg_cong [OF eq, of cameras] by simp
  show "done_dict e' = done_dict e" using arg_cong [OF eq, of done_dict] by simp
  show "dones e' = dones e" using arg_cong [OF eq, of dones] by simp
  show "server_process e' = server_process e" using arg_cong [OF eq, of server_process] by simp
  show "client e' = client e" using arg_cong [OF eq, of client] by simp
  show "scenario e' = scenario e" using arg_cong [OF eq, of scenario] by simp
  show "scenario_map e' = scenario_map e" using arg_cong [OF eq, of scenario_map] by simp
  show "framestack e' = framestack e" using arg_cong [OF eq, of framestack] by simp
qed


subsection \<open>The configuration is never changed\<close>

lemma encode_obs_configs [simp]:
  "actor_configs (snd (encode_obs e a img py)) = actor_configs e"
  by (simp add: encode_obs_def Let_def split: sum.split)

lemma hard_reset_configs [simp]:
  "actor_configs (snd (hard_reset e a cfg sw)) = actor_configs e"
  by (simp add: hard_reset_def Let_def split: sum.split option.split scenario_entry.split)

lemma soft_reset_state [simp]: "snd (soft_reset e a sw) = e"
  by (simp add: soft_reset_def split: sum.split)

lemma attach_sensors_configs [simp]:
  "actor_configs (snd (attach_sensors e a cfg sw)) = actor_configs e"
  by (simp add: attach_sensors_def Let_def split: sum.split option.split prod.split)

lemma reset_actor_configs [simp]:
  "actor_configs (snd (reset_actor e a cfg sw)) = actor_configs e"
  by (simp add: reset_actor_def Let_def split_beta split: sum.split)

subsection \<open>A relation kept by the parts of a reset is kept by the reset\<close>

lemma reset_actors_rel:
  assumes R_refl: "\<And>e. R e e"
    and R_trans: "\<And>e1 e2 e3. R e1 e2 \<Longrightarrow> R e2 e3 \<Longrightarrow> R e1 e3"
    and R_actor: "\<And>e a cfg sw. (a, cfg) \<in> set (actor_configs e)
                    \<Longrightarrow> R e (snd (reset_actor e a cfg sw))"
  shows "set acfgs \<subseteq> set (actor_configs e) \<Longrightarrow> R e (snd (reset_actors e acfgs w))"
proof (induction acfgs arbitrary: e)
  case Nil
  show ?case by (simp add: R_refl)
next
  case (Cons p acfgs)
  obtain a cfg where p: "p = (a, cfg)" by (cases p)
  obtain r1 e1 where ra: "reset_actor e a cfg (w a) = (r1, e1)"
    by (cases "reset_actor e a cfg (w a)")
  have mem: "(a, cfg) \<in> set (actor_configs e)" using Cons.prems p by simp
  have R1: "R e e1" using R_actor [OF mem, of "w a"] ra by simp
  have cfgs: "actor_configs e1 = actor_configs e"
    using reset_actor_configs [of e a cfg "w a"] ra by simp
  show ?case
  proof (cases r1)
    case (Inl x)
    then show ?thesis using R1 ra p by simp
  next
    case (Inr u)
    have "R e1 (snd (reset_actors e1 acfgs w))"
      using Cons.IH [of e1] Cons.prems cfgs by simp
    then show ?thesis using R1 ra p Inr R_trans by auto
  qed
qed

lemma init_observations_rel:
  assumes R_refl: "\<And>e. R e e"
    and R_trans: "\<And>e1 e2 e3. R e1 e2 \<Longrightarrow> R e2 e3 \<Longrightarrow> R e1 e3"
    and R_obs: "\<And>e a sw. R e (snd (init_observation e a sw))"
  shows "R e (snd (init_observations e as w))"
proof (induction as arbitrary: e)
  case Nil
  show ?case by (simp add: R_refl)
next
  case (Cons a as)
  obtain r1 e1 where io: "init_observation e a (w a) = (r1, e1)"
    by (cases "init_observation e a (w a)")
  have R1: "R e e1" using R_obs [of e a "w a"] io by simp
  show ?case
  proof (cases r1)
    case (Inl x)
    then show ?thesis using R1 io by simp
  next
    case (Inr u)
    then show ?thesis using R1 io R_trans [OF R1 Cons.IH [of e1]] by simp
  qed
qed

lemma reset_inner_rel:
  assumes R_refl: "\<And>e. R e e"
    and R_trans: "\<And>e1 e2 e3. R e1 e2 \<Longrightarrow> R e2 e3 \<Longrightarrow> R e1 e3"
    and R_actor: "\<And>e a cfg sw. (a, cfg) \<in> set (actor_configs e)
                    \<Longrightarrow> R e (snd (reset_actor e a cfg sw))"
    and R_obs: "\<And>e a sw. R e (snd (init_observation e a sw))"
  shows "R e (snd (reset_inner e aw))"
proof -
  let ?p1 = "reset_actors e (actor_configs e) (aw_actor aw)"
  let ?e1 = "snd ?p1"
  have R1: "R e ?e1"
    by (rule reset_actors_rel [where R = R, OF R_refl R_trans R_actor]) simp_all
  have R2: "R ?e1 (snd (init_observations ?e1 (map fst (cameras ?e1)) (aw_actor aw)))"
    by (rule init_observations_rel [where R = R, OF R_refl R_trans R_obs])
  show ?thesis
    using R1 R_trans [OF R1 R2]
    by (simp add: reset_inner_def split_beta R_refl split: sum.split)
qed

lemma reset_loop_rel:
  assumes R_refl: "\<And>e. R e e"
    and R_trans: "\<And>e1 e2 e3. R e1 e2 \<Longrightarrow> R e2 e3 \<Longrightarrow> R e1 e3"
    and R_server: "\<And>e aw r e'. init_server e aw = Some (r, e') \<Longrightarrow> R e e'"
    and R_clear: "\<And>e. R e (clear_server_state e)"
    and R_inner: "\<And>e aw. R e (snd (reset_inner e aw))"
  shows "reset_loop e w retry k err = Some (r, e') \<Longrightarrow> R e e'"
proof (induction k arbitrary: e retry err)
  case 0
  then show ?case by (simp add: R_refl)
next
  case (Suc k)
  let ?s = "if server_process e = None then init_server e (w retry) else Some (Inr (), e)"
  from Suc.prems obtain r1 e1 where s: "?s = Some (r1, e1)"
    by (cases ?s) (auto split: if_splits)
  have R1: "R e e1"
    using s R_server R_refl by (auto split: if_splits)
  show ?case
  proof (cases r1)
    case (Inl x)
    with Suc.prems s
    have "reset_loop (clear_server_state e1) w (Suc retry) k (Some x) = Some (r, e')"
      by (simp split: if_splits)
    from Suc.IH [OF this] have "R (clear_server_state e1) e'" .
    with R1 R_clear [of e1] show ?thesis using R_trans by blast
  next
    case (Inr u)
    obtain r2 e2 where ri: "reset_inner e1 (w retry) = (r2, e2)"
      by (cases "reset_inner e1 (w retry)")
    have R2: "R e1 e2" using R_inner [of e1 "w retry"] ri by simp
    show ?thesis
    proof (cases r2)
      case (Inl x)
      with Suc.prems s Inr ri
      have "reset_loop (clear_server_state e2) w (Suc retry) k (Some x) = Some (r, e')"
        by (simp split: if_splits)
      from Suc.IH [OF this] have "R (clear_server_state e2) e'" .
      with R1 R2 R_clear [of e2] show ?thesis using R_trans by blast
    next
      case (Inr od)
      with Suc.prems s \<open>r1 = Inr u\<close> ri have "e' = e2" by (simp split: if_splits)
      with R1 R2 show ?thesis using R_trans by blast
    qed
  qed
qed

lemma reset_rel:
  assumes R_refl: "\<And>e. R e e"
    and R_trans: "\<And>e1 e2 e3. R e1 e2 \<Longrightarrow> R e2 e3 \<Longrightarrow> R e1 e3"
    and R_server: "\<And>e aw r e'. init_server e aw = Some (r, e') \<Longrightarrow> R e e'"
    and R_clear: "\<And>e. R e (clear_server_state e)"
    and R_actor: "\<And>e a cfg sw. (a, cfg) \<in> set (actor_configs e)
                    \<Longrightarrow> R e (snd (reset_actor e a cfg sw))"
    and R_obs: "\<And>e a sw. R e (snd (init_observation e a sw))"
    and res: "reset e w = Some (r, e')"
  shows "R e e'"
proof -
  have inner: "\<And>e aw. R e (snd (reset_inner e aw))"
    by (rule reset_inner_rel [where R = R, OF R_refl R_trans R_actor R_obs])
  show ?thesis
  proof (rule reset_loop_rel [where R = R])
    show "reset_loop e w 0 RETRIES_ON_ERROR None = Some (r, e')"
      using res by (simp add: reset_def)
    show "\<And>e. R e e" by (rule R_refl)
    show "\<And>e1 e2 e3. R e1 e2 \<Longrightarrow> R e2 e3 \<Longrightarrow> R e1 e3" by (rule R_trans)
    show "\<And>e aw r e'. init_server e aw = Some (r, e') \<Longrightarrow> R e e'" by (rule R_server)
    show "\<And>e. R e (clear_server_state e)" by (rule R_clear)
    show "\<And>e aw. R e (snd (reset_inner e aw))" by (rule inner)
  qed
qed

subsection \<open>What a step keeps\<close>

lemma step_loop_keeps:
  "step_loop e acts sim od rd idd = (r, e') \<Longrightarrow>
     actors e' = actors e \<and> actor_configs e' = actor_configs e
     \<and> episode_id_dict e' = episode_id_dict e
     \<and> collisions e' = collisions e \<and> lane_invasions e' = lane_invasions e
     \<and> server_process e' = server_process e \<and> client e' = client e
     \<and> dones e' \<subseteq> dones e \<union> set (map fst acts)"
proof (induction acts arbitrary: e od rd idd)
  case Nil
  then show ?case by simp
next
  case (Cons p acts)
  obtain a act where p: "p = (a, act)" by (cases p)
  obtain r1 e1 where sa: "step_actor e a act (sim a) = (r1, e1)"
    by (cases "step_actor e a act (sim a)")
  have fr: "step_frame e e1" using step_frame_step_actor [of e a act "sim a"] sa by simp
  note k = step_frameD [OF fr]
  show ?case
  proof (cases r1)
    case (Inl x)
    with Cons.prems p sa have "e' = e1" by simp
    with k show ?thesis by auto
  next
    case (Inr t)
    obtain ob reward d info where t: "t = (ob, reward, d, info)" by (cases t)
    let ?e2 = "e1\<lparr>done_dict := AList.update a d (done_dict e1)\<rparr>"
    let ?e3 = "if d then ?e2\<lparr>dones := insert a (dones ?e2)\<rparr> else ?e2"
    from Cons.prems p sa Inr t
    have "step_loop ?e3 acts sim (AList.update a ob od) (AList.update a reward rd)
            (AList.update a info idd) = (r, e')"
      by (simp add: Let_def)
    from Cons.IH [OF this] k p show ?thesis
      by (auto split: if_splits)
  qed
qed

lemma clear_server_state_keeps:
  "actors (clear_server_state e) = actors e"
  "actor_configs (clear_server_state e) = actor_configs e"
  "episode_id_dict (clear_server_state e) = episode_id_dict e"
  "collisions (clear_server_state e) = collisions e"
  "lane_invasions (clear_server_state e) = lane_invasions e"
  "dones (clear_server_state e) = dones e"
  "done_dict (clear_server_state e) = done_dict e"
  "total_reward (clear_server_state e) = total_reward e"
  by (simp_all add: clear_server_state_def Let_def)

lemma clear_server_state_cleared:
  "client (clear_server_state e) = None" "server_process (clear_server_state e) = None"
  by (simp_all add: clear_server_state_def Let_def)

lemma step_keeps:
  assumes "step e arg sim = (r, e')"
  shows "actors e' = actors e" and "actor_configs e' = actor_configs e"
    and "episode_id_dict e' = episode_id_dict e"
    and "collisions e' = collisions e" and "lane_invasions e' = lane_invasions e"
    and "dones e' \<subseteq> dones e \<union> set (map fst (actors e))"
proof -
  have "actors e' = actors e \<and> actor_configs e' = actor_configs e
     \<and> episode_id_dict e' = episode_id_dict e
     \<and> collisions e' = collisions e \<and> lane_invasions e' = lane_invasions e
     \<and> dones e' \<subseteq> dones e \<union> set (map fst (actors e))"
  proof (cases "\<exists>acts. arg = ActionDict acts \<and> server_process e \<noteq> None \<and> client e \<noteq> None
                   \<and> actors e \<noteq> [] \<and> set (map fst acts) \<subseteq> set (map fst (actors e))")
    case False
    with assms have "e' = e"
      by (cases arg) (auto simp: step_def split: if_splits)
    then show ?thesis by simp
  next
    case True
    then obtain acts where arg: "arg = ActionDict acts"
      and live: "server_process e \<noteq> None" "client e \<noteq> None" "actors e \<noteq> []"
      and sub: "set (map fst acts) \<subseteq> set (map fst (actors e))" by blast
    obtain r1 e1 where sl: "step_loop e acts sim [] [] [] = (r1, e1)"
      by (cases "step_loop e acts sim [] [] []")
    note k = step_loop_keeps [OF sl]
    show ?thesis
    proof (cases r1)
      case (Inl x)
      with assms arg live sub sl have "e' = clear_server_state e1"
        by (simp add: step_def)
      moreover have "dones e1 \<subseteq> dones e \<union> set (map fst (actors e))"
        using k sub by blast
      ultimately show ?thesis using k by (simp add: clear_server_state_keeps)
    next
      case (Inr t)
      with assms arg live sub sl
      have "e' = e1\<lparr>done_dict := AList.update ''__all__''
                       (card (dones e1) = length (actors e1)) (done_dict e1)\<rparr>"
        by (cases t) (auto simp: step_def Let_def)
      moreover have "dones e1 \<subseteq> dones e \<union> set (map fst (actors e))"
        using k sub by blast
      ultimately show ?thesis using k by simp
    qed
  qed
  then show "actors e' = actors e" and "actor_configs e' = actor_configs e"
    and "episode_id_dict e' = episode_id_dict e"
    and "collisions e' = collisions e" and "lane_invasions e' = lane_invasions e"
    and "dones e' \<subseteq> dones e \<union> set (map fst (actors e))"
    by simp_all
qed

subsection \<open>What the parts of a reset change\<close>

lemma init_server_keeps:
  assumes "init_server e aw = Some (r, e')"
  shows "actors e' = actors e" and "actor_configs e' = actor_configs e"
    and "episode_id_dict e' = episode_id_dict e"
    and "collisions e' = collisions e" and "lane_invasions e' = lane_invasions e"
    and "dones e' = dones e" and "done_dict e' = done_dict e"
  using assms
  by (auto simp: init_server_def Let_def split: option.splits)

lemma hard_reset_shape:
  "dones (snd (hard_reset e a cfg sw)) = dones e"
  "done_dict (snd (hard_reset e a cfg sw)) = done_dict e"
  "collisions (snd (hard_reset e a cfg sw)) = collisions e"
  "lane_invasions (snd (hard_reset e a cfg sw)) = lane_invasions e"
  "actors (snd (hard_reset e a cfg sw)) = actors e
   \<or> (\<exists>v. actors (snd (hard_reset e a cfg sw)) = AList.update a v (actors e))"
  "episode_id_dict (snd (hard_reset e a cfg sw)) = AList.update a (rw_now sw) (episode_id_dict e)"
  by (auto simp: hard_reset_def Let_def
        split: sum.split option.split scenario_entry.split)

lemma attach_sensors_shape:
  "dones (snd (attach_sensors e a cfg sw)) = dones e"
  "done_dict (snd (attach_sensors e a cfg sw)) = done_dict e"
  "actors (snd (attach_sensors e a cfg sw)) = actors e"
  "episode_id_dict (snd (attach_sensors e a cfg sw)) = episode_id_dict e"
  "collisions (snd (attach_sensors e a cfg sw)) = collisions e
   \<or> (collision_sensor cfg = ''on''
       \<and> (\<exists>h. collisions (snd (attach_sensors e a cfg sw)) = AList.update a h (collisions e)))"
  "lane_invasions (snd (attach_sensors e a cfg sw)) = lane_invasions e
   \<or> (lane_sensor cfg = ''on''
       \<and> (\<exists>h. lane_invasions (snd (attach_sensors e a cfg sw))
                 = AList.update a h (lane_invasions e)))"
  by (auto simp: attach_sensors_def Let_def
        split: sum.split option.split prod.split)

lemma reset_actor_shape:
  "dones (snd (reset_actor e a cfg sw)) = dones e"
  "actors (snd (reset_actor e a cfg sw)) = actors e
   \<or> (\<exists>v. actors (snd (reset_actor e a cfg sw)) = AList.update a v (actors e))"
  "collisions (snd (reset_actor e a cfg sw)) = collisions e
   \<or> (collision_sensor cfg = ''on''
       \<and> (\<exists>h. collisions (snd (reset_actor e a cfg sw)) = AList.update a h (collisions e)))"
  "lane_invasions (snd (reset_actor e a cfg sw)) = lane_invasions e
   \<or> (lane_sensor cfg = ''on''
       \<and> (\<exists>h. lane_invasions (snd (reset_actor e a cfg sw))
                 = AList.update a h (lane_invasions e)))"
proof -
  let ?e1 = "if map_of (done_dict e) a = None
             then e\<lparr>done_dict := AList.update a True (done_dict e)\<rparr> else e"
  let ?p = "if a \<in> set (map fst (actors ?e1)) then soft_reset ?e1 a sw
            else hard_reset ?e1 a cfg sw"
  have e1: "dones ?e1 = dones e" "actors ?e1 = actors e" "collisions ?e1 = collisions e"
    "lane_invasions ?e1 = lane_invasions e" by simp_all
  have p: "dones (snd ?p) = dones e" "collisions (snd ?p) = collisions e"
    "lane_invasions (snd ?p) = lane_invasions e"
    "actors (snd ?p) = actors e \<or> (\<exists>v. actors (snd ?p) = AList.update a v (actors e))"
    using hard_reset_shape [of ?e1 a cfg sw] e1 by (simp_all split: if_splits)
  have ra: "snd (reset_actor e a cfg sw) = ?e1
            \<or> snd (reset_actor e a cfg sw) = snd ?p
            \<or> snd (reset_actor e a cfg sw) = snd (attach_sensors (snd ?p) a cfg sw)"
    by (simp add: reset_actor_def Let_def split_beta split: sum.split)
  show "dones (snd (reset_actor e a cfg sw)) = dones e"
    using ra e1 p attach_sensors_shape(1) [of "snd ?p" a cfg sw] by auto
  show "actors (snd (reset_actor e a cfg sw)) = actors e
   \<or> (\<exists>v. actors (snd (reset_actor e a cfg sw)) = AList.update a v (actors e))"
    using ra e1 p attach_sensors_shape(3) [of "snd ?p" a cfg sw] by auto
  show "collisions (snd (reset_actor e a cfg sw)) = collisions e
   \<or> (collision_sensor cfg = ''on''
       \<and> (\<exists>h. collisions (snd (reset_actor e a cfg sw)) = AList.update a h (collisions e)))"
    using ra e1 p attach_sensors_shape(5) [of "snd ?p" a cfg sw] by auto
  show "lane_invasions (snd (reset_actor e a cfg sw)) = lane_invasions e
   \<or> (lane_sensor cfg = ''on''
       \<and> (\<exists>h. lane_invasions (snd (reset_actor e a cfg sw))
                 = AList.update a h (lane_invasions e)))"
    using ra e1 p attach_sensors_shape(6) [of "snd ?p" a cfg sw] by auto
qed

lemma encode_obs_keeps:
  "actors (snd (encode_obs e a img py)) = actors e"
  "dones (snd (encode_obs e a img py)) = dones e"
  "done_dict (snd (encode_obs e a img py)) = done_dict e"
  "collisions (snd (encode_obs e a img py)) = collisions e"
  "lane_invasions (snd (encode_obs e a img py)) = lane_invasions e"
  "episode_id_dict (snd (encode_obs e a img py)) = episode_id_dict e"
  "total_reward (snd (encode_obs e a img py)) = total_reward e"
  by (simp_all add: encode_obs_def Let_def split: sum.split)

lemma init_observation_keeps:
  "actors (snd (init_observation e a sw)) = actors e"
  "actor_configs (snd (init_observation e a sw)) = actor_configs e"
  "dones (snd (init_observation e a sw)) = dones e"
  "done_dict (snd (init_observation e a sw)) = done_dict e"
  "collisions (snd (init_observation e a sw)) = collisions e"
  "lane_invasions (snd (init_observation e a sw)) = lane_invasions e"
  "episode_id_dict (snd (init_observation e a sw)) = episode_id_dict e"
  by (simp_all add: init_observation_def Let_def split_beta encode_obs_keeps
        split: sum.split option.split)

subsection \<open>The registry invariant\<close>

lemma registry_inv_update:
  "registry_inv e \<Longrightarrow> dones e' = dones e
   \<Longrightarrow> actors e' = actors e \<or> (\<exists>v. actors e' = AList.update a v (actors e))
   \<Longrightarrow> registry_inv e'"
  by (auto simp: registry_inv_def distinct_update dom_update)

lemma registry_inv_step:
  assumes "registry_inv e" and "step e arg sim = (r, e')"
  shows "registry_inv e'"
  using assms(1) step_keeps(1,6) [OF assms(2)] by (auto simp: registry_inv_def)

lemma registry_inv_reset:
  assumes "registry_inv e" and "reset e w = Some (r, e')"
  shows "registry_inv e'"
proof -
  have "registry_inv e \<longrightarrow> registry_inv e'"
  proof (rule reset_rel [where R = "\<lambda>e e'. registry_inv e \<longrightarrow> registry_inv e'", OF _ _ _ _ _ _ assms(2)])
    show "\<And>e aw r e'. init_server e aw = Some (r, e')
            \<Longrightarrow> registry_inv e \<longrightarrow> registry_inv e'"
      using init_server_keeps(1,6) by (auto intro: registry_inv_update)
    show "\<And>e. registry_inv e \<longrightarrow> registry_inv (clear_server_state e)"
      by (auto intro: registry_inv_update simp: clear_server_state_keeps)
    show "\<And>e a cfg sw. (a, cfg) \<in> set (actor_configs e)
            \<Longrightarrow> registry_inv e \<longrightarrow> registry_inv (snd (reset_actor e a cfg sw))"
      using reset_actor_shape(1,2) by (blast intro: registry_inv_update)
    show "\<And>e a sw. registry_inv e \<longrightarrow> registry_inv (snd (init_observation e a sw))"
      by (auto intro: registry_inv_update simp: init_observation_keeps)
  qed simp_all
  with assms(1) show ?thesis by simp
qed

lemma reachable_registry_inv: "reachable e \<Longrightarrow> registry_inv e"
proof (induction rule: reachable.induct)
  case (reachable_init acfgs fs discrete squash tbl coords out_path)
  show ?case by (simp add: registry_inv_def init_env_def)
next
  case (reachable_reset e w r e')
  then show ?case using registry_inv_reset by blast
next
  case (reachable_step e arg sim r e')
  then show ?case using registry_inv_step by blast
qed

lemma registry_inv_all_done:
  assumes "registry_inv e"
  shows "(card (dones e) = length (actors e))
         \<longleftrightarrow> (\<forall>a \<in> set (map fst (actors e)). a \<in> dones e)"
proof -
  let ?K = "set (map fst (actors e))"
  have d: "distinct (map fst (actors e))" and sub: "dones e \<subseteq> ?K"
    using assms by (simp_all add: registry_inv_def)
  have len: "length (actors e) = card ?K"
    using distinct_card [OF d] by simp
  have "card (dones e) = card ?K \<longleftrightarrow> dones e = ?K"
    using card_subset_eq [OF _ sub] by auto
  with len sub show ?thesis by auto
qed

section \<open>Discrete action table\<close>

text \<open>
  C7.  In discrete-action mode an action index is decoded through the fixed table
  \<open>DISCRETE_ACTIONS\<close> to a pair (throttle/brake, steer): every index 0..8 of the table
  decodes to its two-element entry (any other index raises \<open>KeyError\<close>), index 0 decodes
  to \<open>[0.0, 0.0]\<close> (coast) and index 4 to \<open>[-0.5, 0.0]\<close> (brake: a negative first
  component and zero steer).  Without squashing, the control applied for index 0 has
  throttle 0, brake 0 and steer 0, and the one for index 4 has throttle 0, brake 0.5 and
  steer 0.
\<close>

theorem discrete_action_decoding:
  "decode_action True (Index 0) = Inr (Vec [0, 0])
   \<and> decode_action True (Index 4) = Inr (Vec [- 0.5, 0])
   \<and> map (\<lambda>i. decode_action True (Index i)) [0, 1, 2, 3, 4, 5, 6, 7, 8]
       = map (\<lambda>(i, v). Inr (Vec v)) DISCRETE_ACTIONS
   \<and> list_all (\<lambda>(i, v). length v = 2) DISCRETE_ACTIONS
   \<and> decode_action True (Index i) = (case map_of DISCRETE_ACTIONS i of
                                        None \<Rightarrow> Inl KeyError
                                      | Some v \<Rightarrow> Inr (Vec v))
   \<and> action_control False (Vec [0, 0])
       = Inr \<lparr>steer = 0, throttle = 0, brake = 0, reverse = False, hand_brake = False\<rparr>
   \<and> action_control False (Vec [- 0.5, 0])
       = Inr \<lparr>steer = 0, throttle = 0, brake = 0.5, reverse = False, hand_brake = False\<rparr>"
  by (simp add: decode_action_def dict_get_def DISCRETE_ACTIONS_def action_control_def
        clip_def split: option.split)

subsection \<open>The sensor invariant\<close>

lemma sensors_inv_same:
  "sensors_inv e \<Longrightarrow> actor_configs e' = actor_configs e \<Longrightarrow> collisions e' = collisions e
   \<Longrightarrow> lane_invasions e' = lane_invasions e \<Longrightarrow> sensors_inv e'"
  by (simp only: sensors_inv_def) blast

lemma update_keys_set:
  "set (map fst (AList.update k v al)) = insert k (set (map fst al))"
  using dom_update [of k v al] by simp

lemma sensors_inv_step:
  assumes "sensors_inv e" and "step e arg sim = (r, e')"
  shows "sensors_inv e'"
  using assms(1) step_keeps(2,4,5) [OF assms(2)] by (rule sensors_inv_same)

lemma sensors_inv_reset_actor:
  assumes inv: "sensors_inv e" and mem: "(a, cfg) \<in> set (actor_configs e)"
  shows "sensors_inv (snd (reset_actor e a cfg sw))"
proof -
  let ?e' = "snd (reset_actor e a cfg sw)"
  have d: "distinct (map fst (actor_configs e))" using inv by (simp add: sensors_inv_def)
  have uniq: "\<And>cfg'. (a, cfg') \<in> set (actor_configs e) \<Longrightarrow> cfg' = cfg"
    using d mem by (meson eq_key_imp_eq_value)
  have c: "collision_sensor cfg' = ''on''"
    if "b \<in> set (map fst (collisions ?e'))" "(b, cfg') \<in> set (actor_configs e)" for b cfg'
  proof (cases "b \<in> set (map fst (collisions e))")
    case True
    with inv that(2) show ?thesis by (simp add: sensors_inv_def)
  next
    case False
    from reset_actor_shape(3) [of e a cfg sw]
    have "collision_sensor cfg = ''on'' \<and> b = a"
    proof
      assume "collisions ?e' = collisions e"
      with that(1) False show ?thesis by simp
    next
      assume "collision_sensor cfg = ''on'' \<and> (\<exists>h. collisions ?e' = AList.update a h (collisions e))"
      then obtain h where on: "collision_sensor cfg = ''on''"
        and eq: "collisions ?e' = AList.update a h (collisions e)" by blast
      have "set (map fst (collisions ?e')) = insert a (set (map fst (collisions e)))"
        unfolding eq by (rule update_keys_set)
      with that(1) False on show ?thesis by blast
    qed
    with uniq that(2) show ?thesis by blast
  qed
  have l: "lane_sensor cfg' = ''on''"
    if "b \<in> set (map fst (lane_invasions ?e'))" "(b, cfg') \<in> set (actor_configs e)" for b cfg'
  proof (cases "b \<in> set (map fst (lane_invasions e))")
    case True
    with inv that(2) show ?thesis by (simp add: sensors_inv_def)
  next
    case False
    from reset_actor_shape(4) [of e a cfg sw]
    have "lane_sensor cfg = ''on'' \<and> b = a"
    proof
      assume "lane_invasions ?e' = lane_invasions e"
      with that(1) False show ?thesis by simp
    next
      assume "lane_sensor cfg = ''on'' \<and> (\<exists>h. lane_invasions ?e' = AList.update a h (lane_invasions e))"
      then obtain h where on: "lane_sensor cfg = ''on''"
        and eq: "lane_invasions ?e' = AList.update a h (lane_invasions e)" by blast
      have "set (map fst (lane_invasions ?e')) = insert a (set (map fst (lane_invasions e)))"
        unfolding eq by (rule update_keys_set)
      with that(1) False on show ?thesis by blast
    qed
    with uniq that(2) show ?thesis by blast
  qed
  show ?thesis
    unfolding sensors_inv_def using d c l by (simp del: set_map)
qed

lemma sensors_inv_reset:
  assumes "sensors_inv e" and "reset e w = Some (r, e')"
  shows "sensors_inv e'"
proof -
  have "sensors_inv e \<longrightarrow> sensors_inv e'"
  proof (rule reset_rel [where R = "\<lambda>e e'. sensors_inv e \<longrightarrow> sensors_inv e'", OF _ _ _ _ _ _ assms(2)])
    show "\<And>e aw r e'. init_server e aw = Some (r, e')
            \<Longrightarrow> sensors_inv e \<longrightarrow> sensors_inv e'"
      using init_server_keeps(2,4,5) sensors_inv_same by blast
    show "\<And>e. sensors_inv e \<longrightarrow> sensors_inv (clear_server_state e)"
      using sensors_inv_same clear_server_state_keeps(2,4,5) by blast
    show "\<And>e a cfg sw. (a, cfg) \<in> set (actor_configs e)
            \<Longrightarrow> sensors_inv e \<longrightarrow> sensors_inv (snd (reset_actor e a cfg sw))"
      using sensors_inv_reset_actor by blast
    show "\<And>e a sw. sensors_inv e \<longrightarrow> sensors_inv (snd (init_observation e a sw))"
      using sensors_inv_same init_observation_keeps(2,5,6) by blast
  qed simp_all
  with assms(1) show ?thesis by simp
qed

lemma reachable_sensors_inv: "reachable e \<Longrightarrow> sensors_inv e"
proof (induction rule: reachable.induct)
  case (reachable_init acfgs fs discrete squash tbl coords out_path)
  then show ?case by (simp add: sensors_inv_def init_env_def)
next
  case (reachable_reset e w r e')
  then show ?case using sensors_inv_reset by blast
next
  case (reachable_step e arg sim r e')
  then show ?case using sensors_inv_step by blast
qed

lemma sensors_inv_off:
  assumes "sensors_inv e" and "map_of (actor_configs e) a = Some cfg"
    and "collision_sensor cfg \<noteq> ''on'' \<or> lane_sensor cfg \<noteq> ''on''"
  shows "map_of (collisions e) a = None \<or> map_of (lane_invasions e) a = None"
proof (rule ccontr)
  assume "\<not> ?thesis"
  then have "a \<in> set (map fst (collisions e))" "a \<in> set (map fst (lane_invasions e))"
    by (auto simp: map_of_eq_None_iff)
  moreover have "(a, cfg) \<in> set (actor_configs e)" using assms(2) by (rule map_of_SomeD)
  ultimately have "collision_sensor cfg = ''on''" "lane_sensor cfg = ''on''"
    using assms(1) unfolding sensors_inv_def by blast+
  with assms(3) show False by simp
qed

subsection \<open>A measurement needs both sensors\<close>

lemma dict_get_Inl: "dict_get d k = Inl x \<Longrightarrow> x = KeyError"
  by (simp add: dict_get_def split: option.splits)

lemma dict_get_None: "map_of d k = None \<Longrightarrow> dict_get d k = Inl KeyError"
  by (simp add: dict_get_def)

lemma next_command_of_Inl:
  "next_command_of e a cfg cur fr = Inl x \<Longrightarrow> fr_query_ok fr \<Longrightarrow> cur \<noteq> None
   \<Longrightarrow> x = KeyError"
  by (auto simp: next_command_of_def sim_query_def split: if_splits sum.splits option.splits
        dest: dict_get_Inl)

lemma read_observation_no_sensor:
  assumes "map_of (collisions e) a = None \<or> map_of (lane_invasions e) a = None"
  shows "\<exists>x. read_observation e a fr = Inl x"
    and "fr_query_ok fr \<Longrightarrow> map_of (actors e) a \<noteq> Some None
         \<Longrightarrow> read_observation e a fr = Inl KeyError"
proof -
  have "(\<exists>x. read_observation e a fr = Inl x)
        \<and> (fr_query_ok fr \<longrightarrow> map_of (actors e) a \<noteq> Some None
             \<longrightarrow> read_observation e a fr = Inl KeyError)"
  proof (cases "dict_get (actors e) a")
    case (Inl x)
    then show ?thesis using dict_get_Inl [OF Inl] by (simp add: read_observation_def)
  next
    case cur: (Inr cur)
    then have curv: "map_of (actors e) a = Some cur"
      by (simp add: dict_get_def split: option.splits)
    show ?thesis
    proof (cases "dict_get (actor_configs e) a")
      case (Inl x)
      then show ?thesis using cur dict_get_Inl [OF Inl] by (simp add: read_observation_def)
    next
      case cfg: (Inr cfg)
      show ?thesis
      proof (cases "next_command_of e a cfg cur fr")
        case (Inl x)
        then show ?thesis
          using cur cfg curv next_command_of_Inl [OF Inl]
          by (auto simp: read_observation_def)
      next
        case nc: (Inr nc)
        show ?thesis
        proof (cases "dict_get (collisions e) a")
          case (Inl x)
          then show ?thesis
            using cur cfg nc dict_get_Inl [OF Inl] by (simp add: read_observation_def)
        next
          case c: (Inr h)
          then have "map_of (collisions e) a \<noteq> None"
            by (simp add: dict_get_def split: option.splits)
          with assms have "dict_get (lane_invasions e) a = Inl KeyError"
            by (simp add: dict_get_None)
          then show ?thesis using cur cfg nc c by (simp add: read_observation_def)
        qed
      qed
    qed
  qed
  then show "\<exists>x. read_observation e a fr = Inl x"
    and "fr_query_ok fr \<Longrightarrow> map_of (actors e) a \<noteq> Some None
         \<Longrightarrow> read_observation e a fr = Inl KeyError"
    by simp_all
qed

subsection \<open>Evaluating the example environments\<close>


lemma reset_loop_numeral:
  "reset_loop e w retry (numeral k) err =
     (case (if server_process e = None then init_server e (w retry)
            else Some (Inr (), e)) of
        None \<Rightarrow> None
      | Some (Inl x, e1) \<Rightarrow>
          reset_loop (clear_server_state e1) w (Suc retry) (pred_numeral k) (Some x)
      | Some (Inr _, e1) \<Rightarrow>
          (case reset_inner e1 (w retry) of
             (Inl x, e2) \<Rightarrow>
               reset_loop (clear_server_state e2) w (Suc retry) (pred_numeral k) (Some x)
           | (Inr od, e2) \<Rightarrow> Some (Inr od, e2)))"
  by (simp add: numeral_eq_Suc)

lemma spawn_loop_numeral:
  "spawn_loop f i (numeral k) vehicle =
     (case f i of
        (v, z) \<Rightarrow> if v \<noteq> None \<and> z > 0 then v else spawn_loop f (Suc i) (pred_numeral k) v)"
  by (simp add: numeral_eq_Suc)

lemmas ex_defs = ex_frame_def ex_cfg_def ex_scenario_def ex_table_def ex_spawn_def
  ex_world_def ex_init_def ex_sim_def ex_sim_fault_def

lemmas reset_eval = reset_def RETRIES_ON_ERROR_def init_env_def init_server_def
  connect_loop.simps reset_inner_def sim_query_def reset_actor_def hard_reset_def
  soft_reset_def get_scenarios_def scenario_names_def dict_get_def spawn_new_agent_def
  attach_sensors_def init_observation_def read_observation_def next_command_of_def
  COMMANDS_ENUM_def COMMAND_ORDINAL_def encode_obs_def Let_def reset_loop_numeral
  spawn_loop_numeral clear_server_state_def

lemmas step_eval = step_def step_actor_def decode_action_def action_control_def
  DISCRETE_ACTIONS_def clip_def apply_action_def sim_query_def read_observation_def
  next_command_of_def COMMANDS_ENUM_def COMMAND_ORDINAL_def done_of_def collided_done_def
  log_measurements_step_def encode_obs_def dict_get_def Let_def clear_server_state_def

lemma ex_one_eq:
  "ex_one =
     \<lparr>framestack = 2, discrete_actions = True,
        squash_action_logits = False,
        actor_configs =
          [(''car1'',
            \<lparr>enable_planner = True, early_terminate_on_collision = True,
               reward_function = ''corl2017'',
               scenarios = ''TOWN1_STRAIGHT'', manual_control = False,
               auto_control = False, collision_sensor = ''on'',
               lane_sensor = ''on'', send_measurements = False,
               log_images = False, log_measurements = False\<rparr>)],
        scenarios_module = ex_table,
        pos_coor_map = [(36, 0, 0, 22), (40, 100, 0, 22)],
        carla_out_path = ''out'', server_port = Some 2000,
        server_process = Some 4242, client = Some 2000,
        num_steps = [(''car1'', 0)], total_reward = [(''car1'', None)],
        prev_measurement =
          [(''car1'',
            \<lparr>m_episode_id = ''2019-01-01_00-00-00_000000'', m_step = 0,
               m_x = 0, m_y = 0, m_pitch = 0, m_yaw = 0, m_roll = 0,
               m_forward_speed = 0, m_distance_to_goal = 1,
               m_distance_to_goal_euclidean = 1, m_collision_vehicles = 0,
               m_collision_pedestrians = 0, m_collision_other = 0,
               m_intersection_offroad = 0, m_intersection_otherlane = 0,
               m_start_coord = (0, 0), m_end_coord = (1, 0),
               m_current_scenario =
                 \<lparr>start_pos_id = 36, end_pos_id = 40, num_vehicles = 0,
                    num_pedestrians = 0, max_steps = 2\<rparr>,
               m_num_vehicles = 0, m_num_pedestrians = 0, m_max_steps = 2,
               m_next_command = ''LANE_FOLLOW'', m_previous_action = None,
               m_previous_reward = None, m_action = None, m_control = None,
               m_reward = None, m_total_reward = None, m_done = None\<rparr>)],
        prev_image = Some [[1]],
        episode_id_dict = [(''car1'', ''2019-01-01_00-00-00_000000'')],
        measurements_file_dict = [(''car1'', None)],
        scenario =
          Some
           \<lparr>start_pos_id = 36, end_pos_id = 40, num_vehicles = 0,
              num_pedestrians = 0, max_steps = 2\<rparr>,
        start_pos = [(''car1'', 0, 0, 22)],
        end_pos = [(''car1'', 100, 0, 22)],
        start_coord = [(''car1'', 0, 0)], end_coord = [(''car1'', 1, 0)],
        last_obs = None, obs_dict = [(''car1'', ImageObs [[1], [1]])],
        previous_actions = [], previous_rewards = [],
        last_reward = [(''car1'', None)], actors = [(''car1'', Some 7)],
        collisions = [(''car1'', 7)], lane_invasions = [(''car1'', 7)],
        cameras = [(''car1'', 7)],
        scenario_map =
          [(''car1'',
            \<lparr>start_pos_id = 36, end_pos_id = 40, num_vehicles = 0,
               num_pedestrians = 0, max_steps = 2\<rparr>)],
        done_dict = [(''car1'', True)], dones = {}\<rparr>"
  by (simp add: ex_one_def reset_eval ex_defs)

lemma ex_two_eq:
  "ex_two =
     \<lparr>framestack = 2, discrete_actions = True,
        squash_action_logits = False,
        actor_configs =
          [(''car1'',
            \<lparr>enable_planner = True, early_terminate_on_collision = True,
               reward_function = ''corl2017'',
               scenarios = ''TOWN1_STRAIGHT'', manual_control = False,
               auto_control = False, collision_sensor = ''on'',
               lane_sensor = ''on'', send_measurements = False,
               log_images = False, log_measurements = False\<rparr>),
           (''car2'',
            \<lparr>enable_planner = True, early_terminate_on_collision = True,
               reward_function = ''corl2017'', scenarios = ''CURVE_TOWN1'',
               manual_control = False, auto_control = False,
               collision_sensor = ''on'', lane_sensor = ''on'',
               send_measurements = False, log_images = False,
               log_measurements = False\<rparr>)],
        scenarios_module = ex_table,
        pos_coor_map = [(36, 0, 0, 22), (40, 100, 0, 22)],
        carla_out_path = ''out'', server_port = Some 2000,
        server_process = Some 4242, client = Some 2000,
        num_steps = [(''car1'', 0), (''car2'', 0)],
        total_reward = [(''car1'', None), (''car2'', None)],
        prev_measurement =
          [(''car1'',
            \<lparr>m_episode_id = ''2019-01-01_00-00-00_000000'', m_step = 0,
               m_x = 0, m_y = 0, m_pitch = 0, m_yaw = 0, m_roll = 0,
               m_forward_speed = 0, m_distance_to_goal = 1,
               m_distance_to_goal_euclidean = 1, m_collision_vehicles = 0,
               m_collision_pedestrians = 0, m_collision_other = 0,
               m_intersection_offroad = 0, m_intersection_otherlane = 0,
               m_start_coord = (0, 0), m_end_coord = (1, 0),
               m_current_scenario =
                 \<lparr>start_pos_id = 36, end_pos_id = 40, num_vehicles = 0,
                    num_pedestrians = 0, max_steps = 2\<rparr>,
               m_num_vehicles = 0, m_num_pedestrians = 0, m_max_steps = 10,
               m_next_command = ''LANE_FOLLOW'', m_previous_action = None,
               m_previous_reward = None, m_action = None, m_control = None,
               m_reward = None, m_total_reward = None, m_done = None\<rparr>),
           (''car2'',
            \<lparr>m_episode_id = ''2019-01-01_00-00-00_000000'', m_step = 0,
               m_x = 0, m_y = 0, m_pitch = 0, m_yaw = 0, m_roll = 0,
               m_forward_speed = 0, m_distance_to_goal = 1,
               m_distance_to_goal_euclidean = 1, m_collision_vehicles = 0,
               m_collision_pedestrians = 0, m_collision_other = 0,
               m_intersection_offroad = 0, m_intersection_otherlane = 0,
               m_start_coord = (0, 0), m_end_coord = (1, 0),
               m_current_scenario =
                 \<lparr>start_pos_id = 36, end_pos_id = 40, num_vehicles = 0,
                    num_pedestrians = 0, max_steps = 10\<rparr>,
               m_num_vehicles = 0, m_num_pedestrians = 0, m_max_steps = 10,
               m_next_command = ''LANE_FOLLOW'', m_previous_action = None,
               m_previous_reward = None, m_action = None, m_control = None,
               m_reward = None, m_total_reward = None, m_done = None\<rparr>)],
        prev_image = Some [[2]],
        episode_id_dict =
          [(''car1'', ''2019-01-01_00-00-00_000000''),
           (''car2'', ''2019-01-01_00-00-00_000000'')],
        measurements_file_dict = [(''car1'', None), (''car2'', None)],
        scenario =
          Some
           \<lparr>start_pos_id = 36, end_pos_id = 40, num_vehicles = 0,
              num_pedestrians = 0, max_steps = 10\<rparr>,
        start_pos = [(''car1'', 0, 0, 22), (''car2'', 0, 0, 22)],
        end_pos = [(''car1'', 100, 0, 22), (''car2'', 100, 0, 22)],
        start_coord = [(''car1'', 0, 0), (''car2'', 0, 0)],
        end_coord = [(''car1'', 1, 0), (''car2'', 1, 0)], last_obs = None,
        obs_dict =
          [(''car1'', ImageObs [[1], [1]]),
           (''car2'', ImageObs [[1], [2]])],
        previous_actions = [], previous_rewards = [],
        last_reward = [(''car1'', None), (''car2'', None)],
        actors = [(''car1'', Some 7), (''car2'', Some 8)],
        collisions = [(''car1'', 7), (''car2'', 8)],
        lane_invasions = [(''car1'', 7), (''car2'', 8)],
        cameras = [(''car1'', 7), (''car2'', 8)],
        scenario_map =
          [(''car1'',
            \<lparr>start_pos_id = 36, end_pos_id = 40, num_vehicles = 0,
               num_pedestrians = 0, max_steps = 2\<rparr>),
           (''car2'',
            \<lparr>start_pos_id = 36, end_pos_id = 40, num_vehicles = 0,
               num_pedestrians = 0, max_steps = 10\<rparr>)],
        done_dict = [(''car1'', True), (''car2'', True)], dones = {}\<rparr>"
  by (simp add: ex_two_def ex_two_init_def reset_eval ex_defs)

lemma ex_none_eq:
  "ex_none =
     \<lparr>framestack = 2, discrete_actions = True,
        squash_action_logits = False, actor_configs = [],
        scenarios_module = ex_table,
        pos_coor_map = [(36, 0, 0, 22), (40, 100, 0, 22)],
        carla_out_path = ''out'', server_port = Some 2000,
        server_process = Some 4242, client = Some 2000, num_steps = [],
        total_reward = [], prev_measurement = [], prev_image = None,
        episode_id_dict = [], measurements_file_dict = [], scenario = None,
        start_pos = [], end_pos = [], start_coord = [], end_coord = [],
        last_obs = None, obs_dict = [], previous_actions = [],
        previous_rewards = [], last_reward = [], actors = [],
        collisions = [], lane_invasions = [], cameras = [],
        scenario_map = [], done_dict = [], dones = {}\<rparr>"
  by (simp add: ex_none_def reset_eval ex_defs)

lemma ex_one_reachable: "reachable ex_one"
proof -
  have "reset (ex_init [(''car1'', ex_cfg ''TOWN1_STRAIGHT'' ''on'')]) ex_world
          = Some (Inr [(''car1'', ImageObs [[1], [1]])], ex_one)"
    by (simp add: ex_one_def reset_eval ex_defs)
  moreover have "reachable (ex_init [(''car1'', ex_cfg ''TOWN1_STRAIGHT'' ''on'')])"
    unfolding ex_init_def by (rule reachable_init) simp
  ultimately show ?thesis by (rule reachable_reset [rotated])
qed

lemma ex_two_reachable: "reachable ex_two"
proof -
  have "reset ex_two_init ex_world
          = Some (Inr [(''car1'', ImageObs [[1], [1]]), (''car2'', ImageObs [[1], [2]])],
                  ex_two)"
    by (simp add: ex_two_def ex_two_init_def reset_eval ex_defs)
  moreover have "reachable ex_two_init"
    unfolding ex_two_init_def ex_init_def by (rule reachable_init) simp
  ultimately show ?thesis by (rule reachable_reset [rotated])
qed

lemma ex_none_reachable: "reachable ex_none"
proof -
  have "reset (ex_init []) ex_world = Some (Inr [], ex_none)"
    by (simp add: ex_none_def reset_eval ex_defs)
  moreover have "reachable (ex_init [])"
    unfolding ex_init_def by (rule reachable_init) simp
  ultimately show ?thesis by (rule reachable_reset [rotated])
qed

section \<open>Rejected calls\<close>

text \<open>
  C4 (as amended).  \<^verbatim>\<open>step\<close> raises \<open>RuntimeError\<close> when the server process or the client
  handle is missing (no successful \<^verbatim>\<open>reset\<close> yet); otherwise it raises \<open>AssertionError\<close>
  when the actor registry is empty; otherwise it raises \<open>ValueError\<close> when the argument is
  not a dictionary, and \<open>ValueError\<close> when the dictionary has a key that the registry
  lacks.  In each case the state handed back is the state it was given: nothing was
  modified and no simulator call was made.
\<close>

theorem step_rejects_bad_calls:
  "(server_process e = None \<or> client e = None
      \<longrightarrow> step e arg sim = (Raised RuntimeError, e))
   \<and> (server_process e \<noteq> None \<and> client e \<noteq> None \<and> actors e = []
      \<longrightarrow> step e arg sim = (Raised AssertionError, e))
   \<and> (server_process e \<noteq> None \<and> client e \<noteq> None \<and> actors e \<noteq> []
      \<longrightarrow> step e NotADict sim = (Raised ValueError, e))
   \<and> (server_process e \<noteq> None \<and> client e \<noteq> None \<and> actors e \<noteq> []
        \<and> a \<in> set (map fst action_dict) \<and> a \<notin> set (map fst (actors e))
      \<longrightarrow> step e (ActionDict action_dict) sim = (Raised ValueError, e))"
  by (auto simp: step_def)

text \<open>
  The four rejections on concrete environments: one never reset, one reset with no
  actor configured, and one reset with the actor \<^verbatim>\<open>car1\<close>.
\<close>

theorem step_rejects_bad_calls_witness:
  "step (ex_init [(''car1'', ex_cfg ''TOWN1_STRAIGHT'' ''on'')]) (ActionDict []) ex_sim
     = (Raised RuntimeError, ex_init [(''car1'', ex_cfg ''TOWN1_STRAIGHT'' ''on'')])
   \<and> step ex_none (ActionDict []) ex_sim = (Raised AssertionError, ex_none)
   \<and> step ex_one NotADict ex_sim = (Raised ValueError, ex_one)
   \<and> step ex_one (ActionDict [(''car1'', Index 3), (''ghost'', Index 0)]) ex_sim
       = (Raised ValueError, ex_one)"
proof -
  have one: "server_process ex_one \<noteq> None" "client ex_one \<noteq> None" "actors ex_one \<noteq> []"
    "''ghost'' \<notin> set (map fst (actors ex_one))"
    by (simp_all add: ex_one_eq)
  have none: "server_process ex_none \<noteq> None" "client ex_none \<noteq> None" "actors ex_none = []"
    by (simp_all add: ex_none_eq)
  have init: "server_process (ex_init [(''car1'', ex_cfg ''TOWN1_STRAIGHT'' ''on'')]) = None"
    by (simp add: ex_init_def init_env_def)
  show ?thesis
    using step_rejects_bad_calls
            [of "ex_init [(''car1'', ex_cfg ''TOWN1_STRAIGHT'' ''on'')]" "ActionDict []" ex_sim]
          step_rejects_bad_calls [of ex_none "ActionDict []" ex_sim]
          step_rejects_bad_calls
            [of ex_one NotADict ex_sim "''ghost''" "[(''car1'', Index 3), (''ghost'', Index 0)]"]
          one none init
    by simp
qed

text \<open>
  The claim as stated fails where the registry is empty: after a successful \<^verbatim>\<open>reset\<close> of an
  environment with no actor configured, an argument that is not a dictionary is answered
  by the \<^verbatim>\<open>assert len(self.actors)\<close> of \<^verbatim>\<open>step\<close>, not by a \<open>ValueError\<close>.
\<close>

theorem step_not_a_dict_counterexample:
  "reset (ex_init []) ex_world = Some (Inr [], ex_none)
   \<and> step ex_none NotADict ex_sim = (Raised AssertionError, ex_none)
   \<and> step ex_none NotADict ex_sim \<noteq> (Raised ValueError, ex_none)"
proof -
  have "reset (ex_init []) ex_world = Some (Inr [], ex_none)"
    by (simp add: ex_none_def reset_eval ex_defs)
  moreover have "step ex_none NotADict ex_sim = (Raised AssertionError, ex_none)"
    by (simp add: step_def ex_none_eq)
  ultimately show ?thesis by simp
qed

section \<open>After a fault\<close>

lemma step_degraded:
  assumes "step e arg sim = (Degraded ob rw dn info, e')"
  shows "client e' = None" and "server_process e' = None"
proof -
  from assms obtain e1 where "e' = clear_server_state e1"
    by (auto simp: step_def Let_def split: if_splits step_arg.splits prod.splits sum.splits)
  then show "client e' = None" and "server_process e' = None"
    by (simp_all add: clear_server_state_cleared)
qed

lemma run_steps_no_client:
  "client e = None \<Longrightarrow> run_steps e calls = (map (\<lambda>c. Raised RuntimeError) calls, e)"
  by (induction calls) (auto simp: step_def)

text \<open>
  C9.  When \<^verbatim>\<open>step\<close> has handled an exception (it handed back the tuple of the handler),
  the client handle and the server process are cleared, and every later call of \<^verbatim>\<open>step\<close>,
  whatever its argument, raises \<open>RuntimeError\<close> and leaves the state as it is; so does
  every sequence of later calls, until \<^verbatim>\<open>reset\<close> is called.
\<close>

theorem step_after_teardown:
  "step e arg sim = (Degraded ob rw dn info, e')
   \<Longrightarrow> client e' = None \<and> server_process e' = None
       \<and> step e' arg' sim' = (Raised RuntimeError, e')
       \<and> run_steps e' calls = (map (\<lambda>c. Raised RuntimeError) calls, e')"
  using step_degraded [of e arg sim ob rw dn info e'] run_steps_no_client [of e' calls]
  by (simp add: step_def)

lemma ex_one_fault:
  "step ex_one (ActionDict [(''car1'', Index 3)]) ex_sim_fault
     = (Degraded None 0 True [], clear_server_state ex_one)"
  by (simp add: ex_one_eq step_eval ex_defs)

text \<open>
  On the environment of \<^verbatim>\<open>car1\<close>: the simulator refuses the control, the step is
  degraded, and the next two calls raise \<open>RuntimeError\<close>.
\<close>

theorem step_after_teardown_witness:
  "step ex_one (ActionDict [(''car1'', Index 3)]) ex_sim_fault
     = (Degraded None 0 True [], clear_server_state ex_one)
   \<and> step (clear_server_state ex_one) (ActionDict [(''car1'', Index 3)]) ex_sim
       = (Raised RuntimeError, clear_server_state ex_one)
   \<and> run_steps (clear_server_state ex_one)
         [(ActionDict [(''car1'', Index 3)], ex_sim), (NotADict, ex_sim)]
       = ([Raised RuntimeError, Raised RuntimeError], clear_server_state ex_one)"
  using step_after_teardown [OF ex_one_fault, of "ActionDict [(''car1'', Index 3)]" ex_sim
          "[(ActionDict [(''car1'', Index 3)], ex_sim), (NotADict, ex_sim)]"]
        ex_one_fault
  by (simp del: run_steps.simps)

section \<open>The result of a faulty step\<close>

text \<open>
  C2.  What the handler of \<^verbatim>\<open>step\<close> returns, evaluated on the environment of \<^verbatim>\<open>car1\<close>
  when the simulator refuses the control: the tuple \<^verbatim>\<open>(self.last_obs, 0.0, True, {})\<close>,
  that is a bare observation (here \<^verbatim>\<open>None\<close>, although \<^verbatim>\<open>reset\<close> had returned an
  observation for \<^verbatim>\<open>car1\<close>), a bare float and a bare boolean, not the per-actor
  dictionaries of a normal result.  The server state is cleared and no exception
  propagates.
\<close>

theorem step_fault_result:
  "map_of (obs_dict ex_one) ''car1'' = Some (ImageObs [[1], [1]])
   \<and> step ex_one (ActionDict [(''car1'', Index 3)]) ex_sim_fault
       = (Degraded None 0 True [], clear_server_state ex_one)
   \<and> \<not> is_normal (fst (step ex_one (ActionDict [(''car1'', Index 3)]) ex_sim_fault))"
  by (simp add: ex_one_eq step_eval ex_defs)

section \<open>The aggregate done flag\<close>

text \<open>
  C1.  In every state reached from \<^verbatim>\<open>__init__\<close> by \<^verbatim>\<open>reset\<close> and \<^verbatim>\<open>step\<close> calls, when
  \<^verbatim>\<open>step\<close> returns normally, the entry \<^verbatim>\<open>"__all__"\<close> of the returned done dictionary
  is present, and it is true if and only if every key of the actor registry is in the
  accumulated done set \<^verbatim>\<open>self.dones\<close>.
\<close>

theorem all_done_flag:
  assumes "reachable e" and "step e arg sim = (Normal od rd dd idd, e')"
  shows "map_of dd ''__all__'' = Some (\<forall>a \<in> set (map fst (actors e')). a \<in> dones e')"
proof -
  have inv: "registry_inv e'"
    using reachable_registry_inv [OF reachable_step [OF assms]] .
  from assms(2) obtain e1 where
    dd: "dd = AList.update ''__all__'' (card (dones e1) = length (actors e1)) (done_dict e1)"
    and e': "e' = e1\<lparr>done_dict := dd\<rparr>"
    by (auto simp: step_def Let_def split: if_splits step_arg.splits prod.splits sum.splits)
  have "map_of dd ''__all__'' = Some (card (dones e') = length (actors e'))"
    using dd e' by (simp add: update_conv')
  with registry_inv_all_done [OF inv] show ?thesis by simp
qed

text \<open>
  On the environment of \<^verbatim>\<open>car1\<close>: after its first step \<^verbatim>\<open>car1\<close> is not done, and
  \<^verbatim>\<open>"__all__"\<close> is false.
\<close>

theorem all_done_flag_witness:
  "reachable ex_one
   \<and> (\<exists>od rd idd e'.
         step ex_one (ActionDict [(''car1'', Index 3)]) ex_sim
           = (Normal od rd [(''car1'', False), (''__all__'', False)] idd, e')
         \<and> map_of [(''car1'', False), (''__all__'', False)] ''__all__''
             = Some (\<forall>a \<in> set (map fst (actors e')). a \<in> dones e'))"
proof -
  obtain od rd idd e' where
    st: "step ex_one (ActionDict [(''car1'', Index 3)]) ex_sim
           = (Normal od rd [(''car1'', False), (''__all__'', False)] idd, e')"
    by (simp add: ex_one_eq step_eval ex_defs)
  from all_done_flag [OF ex_one_reachable st] st ex_one_reachable
  show ?thesis by blast
qed

section \<open>Measurements need both sensors\<close>

lemma step_actor_no_sensor:
  assumes "map_of (collisions e) a = None \<or> map_of (lane_invasions e) a = None"
  shows "\<exists>x. fst (step_actor e a act fr) = Inl x"
proof -
  obtain x where ro: "read_observation e a fr = Inl x"
    using read_observation_no_sensor(1) [OF assms] by blast
  show ?thesis
  proof (cases "decode_action (discrete_actions e) act")
    case (Inl y)
    then show ?thesis by (simp add: step_actor_def)
  next
    case d: (Inr action)
    show ?thesis
    proof (cases "action_control (squash_action_logits e) action")
      case (Inl y)
      then show ?thesis using d by (simp add: step_actor_def)
    next
      case c: (Inr ctl)
      show ?thesis
      proof (cases "dict_get (actor_configs e) a")
        case (Inl y)
        then show ?thesis using d c by (simp add: step_actor_def)
      next
        case cf: (Inr config)
        show ?thesis
        proof (cases "apply_action e a config fr")
          case (Inl y)
          then show ?thesis using d c cf by (simp add: step_actor_def)
        next
          case (Inr u)
          then show ?thesis using d c cf ro by (simp add: step_actor_def)
        qed
      qed
    qed
  qed
qed

lemma init_observation_no_sensor:
  assumes "map_of (collisions e) a = None \<or> map_of (lane_invasions e) a = None"
    and "map_of (done_dict e) a = Some True"
  shows "\<exists>x. fst (init_observation e a sw) = Inl x"
proof -
  let ?e1 = "e\<lparr>last_reward := AList.update a None (last_reward e),
                total_reward := AList.update a None (total_reward e),
                num_steps := AList.update a 0 (num_steps e)\<rparr>"
  have "map_of (collisions ?e1) a = None \<or> map_of (lane_invasions ?e1) a = None"
    using assms(1) by simp
  from read_observation_no_sensor(1) [OF this, of "rw_frame sw"]
  obtain x where "read_observation ?e1 a (rw_frame sw) = Inl x" by blast
  then show ?thesis using assms(2) by (simp add: init_observation_def Let_def)
qed

text \<open>
  C10.  \<^verbatim>\<open>_read_observation\<close> indexes the actor's collision and lane-invasion entries
  unconditionally, and an entry exists only for a sensor that the configuration
  switches on.  So in every reachable state, for an actor configured with either sensor
  not \<^verbatim>\<open>"on"\<close>, reading a measurement always fails and never yields a measurement; the
  failure is a \<open>KeyError\<close> whenever the simulator answers the queries and the registry
  holds a vehicle for the actor.  Hence \<^verbatim>\<open>_step\<close> fails for that actor, and so does the
  initial observation that \<^verbatim>\<open>_reset\<close> takes of it.
\<close>

theorem measurement_needs_sensors:
  assumes "reachable e" and "map_of (actor_configs e) a = Some cfg"
    and "collision_sensor cfg \<noteq> ''on'' \<or> lane_sensor cfg \<noteq> ''on''"
  shows "(\<exists>x. read_observation e a fr = Inl x)
     \<and> (fr_query_ok fr \<and> map_of (actors e) a \<noteq> Some None
          \<longrightarrow> read_observation e a fr = Inl KeyError)
     \<and> (\<exists>x. fst (step_actor e a act fr) = Inl x)
     \<and> (map_of (done_dict e) a = Some True
          \<longrightarrow> (\<exists>x. fst (init_observation e a sw) = Inl x))"
proof -
  have off: "map_of (collisions e) a = None \<or> map_of (lane_invasions e) a = None"
    using sensors_inv_off [OF reachable_sensors_inv [OF assms(1)] assms(2,3)] .
  show ?thesis
    using read_observation_no_sensor [OF off, of fr] step_actor_no_sensor [OF off, of act fr]
      init_observation_no_sensor [OF off, of sw]
    by blast
qed

lemma ex_off_reset: "reset ex_off_init ex_world = Some (Inl KeyError, ex_off)"
  by (simp add: ex_off_def ex_off_init_def reset_eval ex_defs)

lemma ex_off_reachable: "reachable ex_off"
proof -
  have "reachable ex_off_init"
    unfolding ex_off_init_def ex_init_def by (rule reachable_init) simp
  then show ?thesis using ex_off_reset by (rule reachable_reset)
qed

lemma ex_off_fields:
  "map_of (actor_configs ex_off) ''car1'' = Some (ex_cfg ''TOWN1_STRAIGHT'' ''off'')"
  "map_of (actors ex_off) ''car1'' = Some (Some 7)"
  "map_of (done_dict ex_off) ''car1'' = Some True"
  by (simp_all add: ex_off_def ex_off_init_def reset_eval ex_defs)

text \<open>
  An actor configured with \<^verbatim>\<open>collision_sensor\<close> off: \<^verbatim>\<open>reset\<close> itself raises the
  \<open>KeyError\<close> of the initial measurement after its five attempts, and a measurement read
  in the state it leaves raises \<open>KeyError\<close> too.
\<close>

theorem measurement_needs_sensors_witness:
  "reset ex_off_init ex_world = Some (Inl KeyError, ex_off)
   \<and> read_observation ex_off ''car1'' (ex_frame [[3]]) = Inl KeyError
   \<and> (\<exists>x. fst (step_actor ex_off ''car1'' (Index 3) (ex_frame [[3]])) = Inl x)
   \<and> (\<exists>x. fst (init_observation ex_off ''car1'' (ex_spawn 7 [[1]])) = Inl x)"
proof -
  have off: "collision_sensor (ex_cfg ''TOWN1_STRAIGHT'' ''off'') \<noteq> ''on''
             \<or> lane_sensor (ex_cfg ''TOWN1_STRAIGHT'' ''off'') \<noteq> ''on''"
    by (simp add: ex_cfg_def)
  have ok: "fr_query_ok (ex_frame [[3]])" by (simp add: ex_frame_def)
  from measurement_needs_sensors [OF ex_off_reachable ex_off_fields(1) off,
         of "ex_frame [[3]]" "Index 3" "ex_spawn 7 [[1]]"]
       ex_off_fields(2,3) ok ex_off_reset
  show ?thesis by simp
qed

section \<open>Episode ids\<close>

lemma reset_actor_done_dict:
  "done_dict (snd (reset_actor e a cfg sw))
     = (if map_of (done_dict e) a = None then AList.update a True (done_dict e)
        else done_dict e)"
proof (cases "map_of (done_dict e) a")
  case None
  then show ?thesis
    by (simp add: reset_actor_def Let_def split_beta hard_reset_shape attach_sensors_shape
          update_conv' split: sum.split)
next
  case (Some d)
  then show ?thesis
    by (cases d)
      (simp_all add: reset_actor_def Let_def split_beta hard_reset_shape attach_sensors_shape
          split: sum.split)
qed

lemma reset_actor_episode:
  "episode_id_dict (snd (reset_actor e a cfg sw))
     = (if hard_respawn e a then AList.update a (rw_now sw) (episode_id_dict e)
        else episode_id_dict e)"
proof (cases "map_of (done_dict e) a")
  case None
  then show ?thesis
    by (simp add: reset_actor_def Let_def split_beta hard_reset_shape attach_sensors_shape
          hard_respawn_def update_conv' split: sum.split)
next
  case (Some d)
  then show ?thesis
    by (cases d)
      (simp_all add: reset_actor_def Let_def split_beta hard_reset_shape attach_sensors_shape
          hard_respawn_def split: sum.split)
qed

lemma update_other: "b \<noteq> a \<Longrightarrow> map_of (AList.update b v al) a = map_of al a"
  by (simp add: update_conv')

lemma reset_actor_soft:
  assumes "\<not> hard_respawn e a"
  shows "\<not> hard_respawn (snd (reset_actor e b cfg sw)) a
         \<and> map_of (episode_id_dict (snd (reset_actor e b cfg sw))) a
             = map_of (episode_id_dict e) a"
proof -
  let ?e' = "snd (reset_actor e b cfg sw)"
  have keys: "set (map fst (actors e)) \<subseteq> set (map fst (actors ?e'))"
  proof -
    from reset_actor_shape(2) [of e b cfg sw] show ?thesis
    proof
      assume "actors ?e' = actors e"
      then show ?thesis by simp
    next
      assume "\<exists>v. actors ?e' = AList.update b v (actors e)"
      then obtain v where eq: "actors ?e' = AList.update b v (actors e)" by blast
      show ?thesis unfolding eq update_keys_set by blast
    qed
  qed
  have dd: "map_of (done_dict e) a = Some False \<Longrightarrow> map_of (done_dict ?e') a = Some False"
    by (cases "b = a") (simp_all add: reset_actor_done_dict update_other)
  have soft: "\<not> hard_respawn ?e' a"
    using assms keys dd unfolding hard_respawn_def by blast
  have eid: "map_of (episode_id_dict ?e') a = map_of (episode_id_dict e) a"
  proof (cases "b = a")
    case True
    with assms show ?thesis by (simp add: reset_actor_episode)
  next
    case False
    then show ?thesis by (simp add: reset_actor_episode update_other)
  qed
  from soft eid show ?thesis by simp
qed

lemma soft_same:
  assumes "\<not> hard_respawn e a" and "actors e' = actors e" and "done_dict e' = done_dict e"
    and "episode_id_dict e' = episode_id_dict e"
  shows "\<not> hard_respawn e' a \<and> map_of (episode_id_dict e') a = map_of (episode_id_dict e) a"
  using assms by (simp add: hard_respawn_def)

lemma reset_soft:
  assumes "reset e w = Some (r, e')" and "\<not> hard_respawn e a"
  shows "map_of (episode_id_dict e') a = map_of (episode_id_dict e) a"
proof -
  let ?R = "\<lambda>e e'. \<not> hard_respawn e a
              \<longrightarrow> \<not> hard_respawn e' a
                  \<and> map_of (episode_id_dict e') a = map_of (episode_id_dict e) a"
  have "?R e e'"
  proof (rule reset_rel [where R = ?R, OF _ _ _ _ _ _ assms(1)])
    show "\<And>e aw r e'. init_server e aw = Some (r, e') \<Longrightarrow> ?R e e'"
      using init_server_keeps(1,3,7) soft_same by blast
    show "\<And>e. ?R e (clear_server_state e)"
      using clear_server_state_keeps(1,3,7) soft_same by blast
    show "\<And>e b cfg sw. (b, cfg) \<in> set (actor_configs e) \<Longrightarrow> ?R e (snd (reset_actor e b cfg sw))"
      using reset_actor_soft by blast
    show "\<And>e b sw. ?R e (snd (init_observation e b sw))"
      using init_observation_keeps(1,4,7) soft_same by blast
  qed simp_all
  with assms(2) show ?thesis by simp
qed

text \<open>
  C8.  The episode id of an actor is assigned in one place only, the respawn from
  scratch of \<^verbatim>\<open>_reset\<close>: the body of the first loop of \<^verbatim>\<open>_reset\<close> assigns the clock
  reading to the actor's episode id exactly when it takes that path (the actor is marked
  done or has no done entry, and the registry has no entry for it) and leaves every
  episode id alone otherwise, in particular on a soft reset; the second loop of
  \<^verbatim>\<open>_reset\<close> and every \<^verbatim>\<open>step\<close>, whatever it returns, leave the episode ids alone.  So a
  whole \<^verbatim>\<open>reset\<close>, with its retries, keeps the episode id of every actor that it does not
  respawn from scratch.
\<close>

theorem episode_id_assignment:
  "episode_id_dict (snd (step e arg sim)) = episode_id_dict e
   \<and> episode_id_dict (snd (reset_actor e a cfg sw))
       = (if hard_respawn e a then AList.update a (rw_now sw) (episode_id_dict e)
          else episode_id_dict e)
   \<and> episode_id_dict (snd (init_observation e a sw)) = episode_id_dict e
   \<and> (reset e w = Some (r, e') \<and> \<not> hard_respawn e a
        \<longrightarrow> map_of (episode_id_dict e') a = map_of (episode_id_dict e) a)"
  using step_keeps(3) [of e arg sim "fst (step e arg sim)" "snd (step e arg sim)"]
    reset_actor_episode [of e a cfg sw] init_observation_keeps(7) [of e a sw]
    reset_soft [of e w r e' a]
  by simp

lemma ex_one_reset_later:
  "\<exists>e'. reset ex_one ex_world_later = Some (Inr [(''car1'', ImageObs [[1], [4]])], e')"
  by (simp add: ex_one_eq ex_world_later_def reset_eval ex_defs)

text \<open>
  The environment of \<^verbatim>\<open>car1\<close> is reset a second time, five minutes later: \<^verbatim>\<open>car1\<close> is in
  the registry, the reset is soft, and the episode id is still the one of the first
  reset.  In the first reset \<^verbatim>\<open>car1\<close> was respawned from scratch and got the clock reading.
\<close>

theorem episode_id_assignment_witness:
  "\<not> hard_respawn ex_one ''car1''
   \<and> (\<exists>e'. reset ex_one ex_world_later = Some (Inr [(''car1'', ImageObs [[1], [4]])], e')
          \<and> map_of (episode_id_dict e') ''car1'' = Some ''2019-01-01_00-00-00_000000'')
   \<and> hard_respawn (ex_init [(''car1'', ex_cfg ''TOWN1_STRAIGHT'' ''on'')]) ''car1''
   \<and> episode_id_dict
        (snd (reset_actor (ex_init [(''car1'', ex_cfg ''TOWN1_STRAIGHT'' ''on'')]) ''car1''
               (ex_cfg ''TOWN1_STRAIGHT'' ''on'') (ex_spawn 7 [[1]])))
       = [(''car1'', ''2019-01-01_00-00-00_000000'')]"
proof -
  have soft: "\<not> hard_respawn ex_one ''car1''"
    by (simp add: hard_respawn_def ex_one_eq)
  have hard: "hard_respawn (ex_init [(''car1'', ex_cfg ''TOWN1_STRAIGHT'' ''on'')]) ''car1''"
    by (simp add: hard_respawn_def ex_init_def init_env_def)
  have eid: "map_of (episode_id_dict ex_one) ''car1'' = Some ''2019-01-01_00-00-00_000000''"
    by (simp add: ex_one_eq)
  obtain e' where
    r: "reset ex_one ex_world_later = Some (Inr [(''car1'', ImageObs [[1], [4]])], e')"
    using ex_one_reset_later by blast
  have "map_of (episode_id_dict e') ''car1'' = Some ''2019-01-01_00-00-00_000000''"
    using episode_id_assignment [of ex_one _ _ "''car1''" _ _ ex_world_later
            "Inr [(''car1'', ImageObs [[1], [4]])]" e'] r soft eid
    by simp
  moreover have "episode_id_dict
        (snd (reset_actor (ex_init [(''car1'', ex_cfg ''TOWN1_STRAIGHT'' ''on'')]) ''car1''
               (ex_cfg ''TOWN1_STRAIGHT'' ''on'') (ex_spawn 7 [[1]])))
       = [(''car1'', ''2019-01-01_00-00-00_000000'')]"
    using episode_id_assignment
            [of "ex_init [(''car1'', ex_cfg ''TOWN1_STRAIGHT'' ''on'')]" _ _ "''car1''"
                "ex_cfg ''TOWN1_STRAIGHT'' ''on''" "ex_spawn 7 [[1]]"] hard
    by (simp add: ex_spawn_def ex_init_def init_env_def)
  ultimately show ?thesis using soft hard r by blast
qed

section \<open>The stages of a call\<close>

lemma sum_stageE:
  assumes "(case m of Inl x \<Rightarrow> (Inl x, s) | Inr v \<Rightarrow> f v) = (Inr r, s')"
  obtains v where "m = Inr v" and "f v = (Inr r, s')"
  using assms by (cases m) simp_all

lemma option_stageE:
  assumes "(case m of None \<Rightarrow> (Inl x, s) | Some v \<Rightarrow> f v) = (Inr r, s')"
  obtains v where "m = Some v" and "f v = (Inr r, s')"
  using assms by (cases m) simp_all

lemma pair_stageE:
  assumes "(case p of (Inl x, s) \<Rightarrow> (Inl x, s) | (Inr v, s) \<Rightarrow> f v s) = (Inr r, s')"
  obtains v s where "p = (Inr v, s)" and "f v s = (Inr r, s')"
  using assms by (cases p; cases "fst p") auto

section \<open>Frame stacking\<close>




























section \<open>The step budget\<close>

text \<open>
  C3.  The termination test of \<^verbatim>\<open>_step\<close> compares the step counter of the actor with
  \<^verbatim>\<open>self.scenario["max_steps"]\<close>, and \<^verbatim>\<open>self.scenario\<close> is the scenario of the actor that was
  respawned last, not the scenario of the actor being stepped.  Here \<^verbatim>\<open>car1\<close> has a
  scenario with a budget of 2 steps and \<^verbatim>\<open>car2\<close>, spawned after it, one with a budget of
  10: \<^verbatim>\<open>car1\<close> is stepped four times, nothing else terminates it, and it is not done at
  its step counter 3.  In the environment where \<^verbatim>\<open>car1\<close> is the only actor, with the same
  scenario, it is done at its step counter 3 (the fourth call: the counter starts at 0).
\<close>

theorem step_budget_of_other_actor:
  "map_of (scenario_map ex_two) ''car1'' = Some (ex_scenario 2)
   \<and> scenario ex_two = Some (ex_scenario 10)
   \<and> map (done_flag ''car1'')
         (fst (run_steps ex_two
                 [(ActionDict [(''car1'', Index 3)], ex_sim),
                  (ActionDict [(''car1'', Index 3)], ex_sim),
                  (ActionDict [(''car1'', Index 3)], ex_sim),
                  (ActionDict [(''car1'', Index 3)], ex_sim)]))
       = [Some False, Some False, Some False, Some False]
   \<and> map_of (num_steps (snd (run_steps ex_two
                 [(ActionDict [(''car1'', Index 3)], ex_sim),
                  (ActionDict [(''car1'', Index 3)], ex_sim),
                  (ActionDict [(''car1'', Index 3)], ex_sim)]))) ''car1'' = Some 3
   \<and> scenario ex_one = Some (ex_scenario 2)
   \<and> map (done_flag ''car1'')
         (fst (run_steps ex_one
                 [(ActionDict [(''car1'', Index 3)], ex_sim),
                  (ActionDict [(''car1'', Index 3)], ex_sim),
                  (ActionDict [(''car1'', Index 3)], ex_sim),
                  (ActionDict [(''car1'', Index 3)], ex_sim)]))
       = [Some False, Some False, Some False, Some True]"
  by (simp add: ex_two_eq ex_one_eq step_eval ex_defs)

section \<open>The running total of the rewards\<close>

lemma log_total_reward:
  "log_measurements_step e a cfg d fr = (r, e') \<Longrightarrow> total_reward e' = total_reward e"
  by (auto simp: log_measurements_step_def Let_def split: sum.splits if_splits)

lemma encode_obs_total_reward:
  "encode_obs e a img py = (r, e') \<Longrightarrow> total_reward e' = total_reward e"
  using encode_obs_keeps(7) [of e a img py] by simp

lemma step_actor_total:
  assumes "step_actor e a act fr = (Inr (ob, rw, d, py), e')"
  shows "\<exists>tot. map_of (total_reward e) a = Some tot
           \<and> total_reward e'
               = AList.update a (Some (case tot of None \<Rightarrow> rw | Some t \<Rightarrow> t + rw))
                   (total_reward e)"
  using assms unfolding step_actor_def Let_def
  by (elim sum_stageE option_stageE pair_stageE)
     (auto simp: dict_get_def split: option.splits
        dest!: log_total_reward encode_obs_total_reward)

lemma step_actor_total_other:
  "b \<noteq> a \<Longrightarrow> map_of (total_reward (snd (step_actor e a act fr))) b
                 = map_of (total_reward e) b"
proof -
  have *: "total_reward (snd (log_measurements_step e2 a cfg d fr)) = total_reward e2"
    for e2 cfg d
    using log_total_reward [of e2 a cfg d fr] by (metis prod.collapse)
  assume "b \<noteq> a"
  then show ?thesis
    by (simp add: step_actor_def Let_def split_beta * encode_obs_keeps(7) update_other
          split: sum.split option.split)
qed

lemma step_loop_total:
  assumes "distinct (map fst acts)"
    and "step_loop e acts sim od rd idd = (Inr (od', rd', idd'), e')"
  shows "(a \<in> set (map fst acts) \<longrightarrow>
            (\<exists>rw tot. map_of rd' a = Some rw \<and> map_of (total_reward e) a = Some tot
               \<and> map_of (total_reward e') a
                   = Some (Some (case tot of None \<Rightarrow> rw | Some t \<Rightarrow> t + rw))))
       \<and> (a \<notin> set (map fst acts) \<longrightarrow>
            map_of rd' a = map_of rd a
            \<and> map_of (total_reward e') a = map_of (total_reward e) a)"
  using assms
proof (induction acts arbitrary: e od rd idd)
  case Nil
  then show ?case by simp
next
  case (Cons p acts)
  obtain b act where p: "p = (b, act)" by (cases p)
  obtain r1 e1 where sa: "step_actor e b act (sim b) = (r1, e1)"
    by (cases "step_actor e b act (sim b)")
  from Cons.prems(2) p sa obtain ob rw1 d info where r1: "r1 = Inr (ob, rw1, d, info)"
    by (cases r1) auto
  let ?e2 = "e1\<lparr>done_dict := AList.update b d (done_dict e1)\<rparr>"
  let ?e3 = "if d then ?e2\<lparr>dones := insert b (dones ?e2)\<rparr> else ?e2"
  have loop: "step_loop ?e3 acts sim (AList.update b ob od) (AList.update b rw1 rd)
                (AList.update b info idd) = (Inr (od', rd', idd'), e')"
    using Cons.prems(2) p sa r1 by (simp add: Let_def)
  have dist: "distinct (map fst acts)" and nb: "b \<notin> set (map fst acts)"
    using Cons.prems(1) p by simp_all
  note IH = Cons.IH [OF dist loop]
  have tr3: "total_reward ?e3 = total_reward e1" by simp
  from step_actor_total [OF sa [unfolded r1]] obtain tot where
    tot: "map_of (total_reward e) b = Some tot"
    and tr1: "total_reward e1
               = AList.update b (Some (case tot of None \<Rightarrow> rw1 | Some t \<Rightarrow> t + rw1))
                   (total_reward e)"
    by blast
  show ?case
  proof (cases "a = b")
    case True
    with IH nb have "map_of rd' a = map_of (AList.update b rw1 rd) a"
      and "map_of (total_reward e') a = map_of (total_reward ?e3) a"
      by blast+
    with True tot tr1 tr3 p show ?thesis by (simp add: update_conv')
  next
    case False
    have other: "map_of (total_reward ?e3) a = map_of (total_reward e) a"
      using False tr1 tr3 by (simp add: update_other)
    have rdo: "map_of (AList.update b rw1 rd) a = map_of rd a"
      using False by (simp add: update_other)
    from IH other rdo False p show ?thesis by auto
  qed
qed

lemma step_total:
  assumes "dict_arg arg" and "step e arg sim = (Normal od rd dd idd, e')"
  shows "map_of (total_reward e') a
           = (case map_of rd a of
                None \<Rightarrow> map_of (total_reward e) a
              | Some rw \<Rightarrow>
                  Some (Some (case map_of (total_reward e) a of
                                Some (Some t) \<Rightarrow> t + rw
                              | _ \<Rightarrow> rw)))"
proof -
  from assms(2) obtain acts e1 where arg: "arg = ActionDict acts"
    and loop: "step_loop e acts sim [] [] [] = (Inr (od, rd, idd), e1)"
    and e': "total_reward e' = total_reward e1"
    by (auto simp: step_def Let_def split: if_splits step_arg.splits prod.splits sum.splits)
  have dist: "distinct (map fst acts)" using assms(1) arg by simp
  note L = step_loop_total [OF dist loop, of a]
  show ?thesis
  proof (cases "a \<in> set (map fst acts)")
    case True
    with L obtain rw tot where "map_of rd a = Some rw" "map_of (total_reward e) a = Some tot"
      "map_of (total_reward e1) a = Some (Some (case tot of None \<Rightarrow> rw | Some t \<Rightarrow> t + rw))"
      by blast
    then show ?thesis using e' by (cases tot) simp_all
  next
    case False
    with L have "map_of rd a = None" "map_of (total_reward e1) a = map_of (total_reward e) a"
      by simp_all
    then show ?thesis using e' by simp
  qed
qed

lemma run_steps_total:
  assumes "run_steps e calls = (rs, e')" and "list_all is_normal rs"
    and "list_all (\<lambda>c. dict_arg (fst c)) calls"
  shows "map_of (total_reward e') a
           = (if rewards_of a rs = [] then map_of (total_reward e) a
              else Some (Some ((case map_of (total_reward e) a of
                                  Some (Some t) \<Rightarrow> t
                                | _ \<Rightarrow> 0) + sum_list (rewards_of a rs))))"
  using assms
proof (induction calls arbitrary: e rs e')
  case Nil
  then show ?case by simp
next
  case (Cons c calls)
  obtain arg sim where c: "c = (arg, sim)" by (cases c)
  obtain r e1 where st: "step e arg sim = (r, e1)" by (cases "step e arg sim")
  obtain rs1 e2 where rn: "run_steps e1 calls = (rs1, e2)" by (cases "run_steps e1 calls")
  from Cons.prems(1) c st rn have rs: "rs = r # rs1" and e2: "e' = e2" by simp_all
  from Cons.prems(2) rs obtain od rd dd idd where r: "r = Normal od rd dd idd"
    and n1: "list_all is_normal rs1"
    by (cases r) simp_all
  have d: "dict_arg arg" and d1: "list_all (\<lambda>c. dict_arg (fst c)) calls"
    using Cons.prems(3) c by simp_all
  note T = step_total [OF d st [unfolded r], of a]
  note IH = Cons.IH [OF rn n1 d1]
  show ?case
  proof (cases "map_of rd a")
    case None
    with T IH rs r e2 show ?thesis by simp
  next
    case (Some rw)
    with T have t1: "map_of (total_reward e1) a
        = Some (Some (case map_of (total_reward e) a of Some (Some t) \<Rightarrow> t + rw | _ \<Rightarrow> rw))"
      by simp
    show ?thesis
      using IH t1 rs r e2 Some
      by (auto split: option.splits)
  qed
qed

lemma foldl_add_reward:
  "foldl add_reward tot rs
     = (if rs = [] then tot
        else Some ((case tot of None \<Rightarrow> 0 | Some t \<Rightarrow> t) + sum_list rs))"
  by (induction rs arbitrary: tot) (auto simp: add_reward_def split: option.splits)

lemma log_total_reward_snd:
  "total_reward (snd (log_measurements_step e a cfg d fr)) = total_reward e"
  using log_total_reward [of e a cfg d fr] by (metis prod.collapse)

lemma step_actor_total_eq:
  "total_reward (snd (step_actor e a act fr))
     = (case step_actor_reward e a act fr of
          Inl x \<Rightarrow> total_reward e
        | Inr reward \<Rightarrow>
            (case map_of (total_reward e) a of
               None \<Rightarrow> total_reward e
             | Some tot \<Rightarrow> AList.update a (add_reward tot reward) (total_reward e)))"
  by (auto simp: step_actor_def step_actor_reward_def Let_def split_beta dict_get_def
        log_total_reward_snd encode_obs_keeps(7) add_reward_def
        split: sum.split option.split)

lemma step_actor_returns_reward:
  assumes "step_actor e a act fr = (Inr (ob, rw, d, py), e')"
  shows "step_actor_reward e a act fr = Inr rw \<and> m_reward py = Some rw
         \<and> (\<exists>tot. map_of (total_reward e) a = Some tot
                  \<and> m_total_reward py = add_reward tot rw)"
  using assms unfolding step_actor_def Let_def
proof (elim sum_stageE option_stageE pair_stageE, goal_cases)
  case (1 action ctl config u py0 pm reward tot n scn d' u' e5 cam img ob' e6)
  have tot: "map_of (total_reward e) a = Some tot"
    using 1(8) by (simp add: dict_get_def split: option.splits)
  have pm: "dict_get (prev_measurement e) a = Inr pm" using 1(6) by simp
  have r: "rw = reward" and py: "m_reward py = Some reward"
    "m_total_reward py = add_reward tot reward"
    using 1(16) by (auto simp: add_reward_def)
  show ?case
    using 1(1-5) 1(7) pm tot r py by (simp add: step_actor_reward_def)
qed

lemma step_actor_total_key:
  "map_of (total_reward e) a = Some tot
   \<Longrightarrow> \<exists>tot'. map_of (total_reward (snd (step_actor e b act fr))) a = Some tot'"
  by (cases "b = a")
     (auto simp: step_actor_total_eq update_conv' split: sum.split option.split)

lemma step_loop_rewards_total:
  assumes "map_of (total_reward e) a = Some tot"
    and "step_loop e acts sim od rd idd = (r, e')"
  shows "map_of (total_reward e') a
           = Some (foldl add_reward tot (step_loop_rewards e acts sim a))"
  using assms
proof (induction acts arbitrary: e tot od rd idd)
  case Nil
  then show ?case by simp
next
  case (Cons p acts)
  obtain b act where p: "p = (b, act)" by (cases p)
  obtain r1 e1 where sa: "step_actor e b act (sim b) = (r1, e1)"
    by (cases "step_actor e b act (sim b)")
  let ?new = "case step_actor_reward e b act (sim b) of
                Inl x \<Rightarrow> [] | Inr reward \<Rightarrow> if b = a then [reward] else []"
  have t1: "map_of (total_reward e1) a = Some (foldl add_reward tot ?new)"
  proof (cases "b = a")
    case True
    with Cons.prems(1) sa step_actor_total_eq [of e b act "sim b"] show ?thesis
      by (auto simp: update_conv' split: sum.split)
  next
    case False
    with Cons.prems(1) sa step_actor_total_other [of a b e act "sim b"] show ?thesis
      by (auto split: sum.split)
  qed
  show ?case
  proof (cases r1)
    case (Inl x)
    with Cons.prems(2) p sa have "e' = e1" by simp
    with t1 p sa Inl show ?thesis by simp
  next
    case (Inr t)
    obtain ob reward d info where t: "t = (ob, reward, d, info)" by (cases t)
    let ?e2 = "e1\<lparr>done_dict := AList.update b d (done_dict e1)\<rparr>"
    let ?e3 = "if d then ?e2\<lparr>dones := insert b (dones ?e2)\<rparr> else ?e2"
    have loop: "step_loop ?e3 acts sim (AList.update b ob od) (AList.update b reward rd)
                  (AList.update b info idd) = (r, e')"
      using Cons.prems(2) p sa Inr t by (simp add: Let_def)
    have t3: "map_of (total_reward ?e3) a = Some (foldl add_reward tot ?new)"
      using t1 by simp
    from Cons.IH [OF t3 loop] p sa Inr t show ?thesis
      by (simp add: Let_def)
  qed
qed

lemma step_rewards_total:
  assumes "map_of (total_reward e) a = Some tot" and "step e arg sim = (r, e')"
  shows "map_of (total_reward e') a = Some (foldl add_reward tot (step_rewards e arg sim a))"
proof (cases "\<exists>x. r = Raised x")
  case True
  then obtain x where r: "r = Raised x" by blast
  with assms(2) have "e' = e"
    by (auto simp: step_def Let_def split: if_splits step_arg.splits prod.splits sum.splits)
  with assms r show ?thesis by (simp add: step_rewards_def)
next
  case False
  with assms(2) obtain acts r1 e1 where arg: "arg = ActionDict acts"
    and loop: "step_loop e acts sim [] [] [] = (r1, e1)"
    and e': "total_reward e' = total_reward e1"
    by (auto simp: step_def Let_def clear_server_state_keeps
          split: if_splits step_arg.splits prod.splits sum.splits)
  have "step_rewards e arg sim a = step_loop_rewards e acts sim a"
    using False assms(2) arg by (cases r) (simp_all add: step_rewards_def)
  with step_loop_rewards_total [OF assms(1) loop] e' show ?thesis by simp
qed

lemma step_loop_rewards_returned:
  assumes "distinct (map fst acts)"
    and "step_loop e acts sim od rd idd = (Inr (od', rd', idd'), e')"
  shows "step_loop_rewards e acts sim a
           = (if a \<in> set (map fst acts) then [the (map_of rd' a)] else [])
         \<and> (a \<in> set (map fst acts) \<longrightarrow> map_of rd' a \<noteq> None)
         \<and> (a \<notin> set (map fst acts) \<longrightarrow> map_of rd' a = map_of rd a)"
  using assms
proof (induction acts arbitrary: e od rd idd)
  case Nil
  then show ?case by simp
next
  case (Cons p acts)
  obtain b act where p: "p = (b, act)" by (cases p)
  obtain r1 e1 where sa: "step_actor e b act (sim b) = (r1, e1)"
    by (cases "step_actor e b act (sim b)")
  from Cons.prems(2) p sa obtain ob rw1 d info where r1: "r1 = Inr (ob, rw1, d, info)"
    by (cases r1) auto
  let ?e2 = "e1\<lparr>done_dict := AList.update b d (done_dict e1)\<rparr>"
  let ?e3 = "if d then ?e2\<lparr>dones := insert b (dones ?e2)\<rparr> else ?e2"
  have loop: "step_loop ?e3 acts sim (AList.update b ob od) (AList.update b rw1 rd)
                (AList.update b info idd) = (Inr (od', rd', idd'), e')"
    using Cons.prems(2) p sa r1 by (simp add: Let_def)
  have dist: "distinct (map fst acts)" and nb: "b \<notin> set (map fst acts)"
    using Cons.prems(1) p by simp_all
  note IH = Cons.IH [OF dist loop]
  have cr: "step_actor_reward e b act (sim b) = Inr rw1"
    using step_actor_returns_reward [OF sa [unfolded r1]] by simp
  have unf: "step_loop_rewards e (p # acts) sim a
               = (if b = a then [rw1] else []) @ step_loop_rewards ?e3 acts sim a"
    using p sa r1 cr by (simp add: Let_def)
  show ?case
  proof (cases "b = a")
    case True
    with IH nb have "step_loop_rewards ?e3 acts sim a = []"
      and "map_of rd' a = map_of (AList.update b rw1 rd) a" by simp_all
    with True unf p show ?thesis by (simp add: update_conv')
  next
    case False
    with IH unf p show ?thesis by (auto simp: update_other)
  qed
qed

lemma step_rewards_returned:
  assumes "dict_arg arg" and "step e arg sim = (Normal od rd dd idd, e')"
  shows "step_rewards e arg sim a = (case map_of rd a of None \<Rightarrow> [] | Some rw \<Rightarrow> [rw])"
proof -
  from assms(2) obtain acts e1 where arg: "arg = ActionDict acts"
    and loop: "step_loop e acts sim [] [] [] = (Inr (od, rd, idd), e1)"
    by (auto simp: step_def Let_def split: if_splits step_arg.splits prod.splits sum.splits)
  have dist: "distinct (map fst acts)" using assms(1) arg by simp
  have sr: "step_rewards e arg sim a = step_loop_rewards e acts sim a"
    using assms(2) arg by (simp add: step_rewards_def)
  from step_loop_rewards_returned [OF dist loop, of a] sr show ?thesis
    by (auto split: option.splits)
qed

lemma step_raised_state:
  "step e arg sim = (Raised x, e') \<Longrightarrow> e' = e \<and> step_rewards e arg sim a = []"
  by (auto simp: step_def step_rewards_def Let_def
        split: if_splits step_arg.splits prod.splits sum.splits)

lemma init_observation_total_eq:
  "map_of (total_reward (snd (init_observation e b sw))) a
     = (if b = a \<and> map_of (done_dict e) a = Some True then Some None
        else map_of (total_reward e) a)"
  by (simp add: init_observation_def Let_def split_beta encode_obs_keeps(7) update_conv'
        split: sum.split option.split)

lemma reset_parts_total:
  "total_reward (snd (hard_reset e a cfg sw)) = total_reward e"
  "total_reward (snd (attach_sensors e a cfg sw)) = total_reward e"
  by (simp_all add: hard_reset_def attach_sensors_def Let_def
        split: sum.split option.split scenario_entry.split prod.split)

lemma reset_actor_total: "total_reward (snd (reset_actor e b cfg sw)) = total_reward e"
  by (simp add: reset_actor_def Let_def split_beta reset_parts_total split: sum.split)

lemma init_server_total:
  "init_server e aw = Some (r, e') \<Longrightarrow> total_reward e' = total_reward e"
  by (auto simp: init_server_def Let_def split: option.splits)

lemma reset_actor_flag:
  "map_of (done_dict (snd (reset_actor e b cfg sw))) a
     = (if b = a \<and> map_of (done_dict e) a = None then Some True else map_of (done_dict e) a)"
  by (simp add: reset_actor_done_dict update_conv')

lemma reset_total_kinds:
  assumes "reset e w = Some (r, e')"
  shows "(map_of (done_dict e) a = Some False
            \<longrightarrow> map_of (done_dict e') a = Some False
                \<and> map_of (total_reward e') a = map_of (total_reward e) a)
         \<and> (map_of (total_reward e') a = map_of (total_reward e) a
             \<or> map_of (total_reward e') a = Some None)"
proof (rule reset_rel [where R = "\<lambda>e e'.
          (map_of (done_dict e) a = Some False
            \<longrightarrow> map_of (done_dict e') a = Some False
                \<and> map_of (total_reward e') a = map_of (total_reward e) a)
          \<and> (map_of (total_reward e') a = map_of (total_reward e) a
              \<or> map_of (total_reward e') a = Some None)", OF _ _ _ _ _ _ assms])
  show "\<And>e aw r e'. init_server e aw = Some (r, e') \<Longrightarrow>
          (map_of (done_dict e) a = Some False
            \<longrightarrow> map_of (done_dict e') a = Some False
                \<and> map_of (total_reward e') a = map_of (total_reward e) a)
          \<and> (map_of (total_reward e') a = map_of (total_reward e) a
              \<or> map_of (total_reward e') a = Some None)"
    using init_server_keeps(7) init_server_total by simp
  show "\<And>e. (map_of (done_dict e) a = Some False
            \<longrightarrow> map_of (done_dict (clear_server_state e)) a = Some False
                \<and> map_of (total_reward (clear_server_state e)) a = map_of (total_reward e) a)
          \<and> (map_of (total_reward (clear_server_state e)) a = map_of (total_reward e) a
              \<or> map_of (total_reward (clear_server_state e)) a = Some None)"
    by (simp add: clear_server_state_keeps)
  show "\<And>e b cfg sw. (b, cfg) \<in> set (actor_configs e) \<Longrightarrow>
          (map_of (done_dict e) a = Some False
            \<longrightarrow> map_of (done_dict (snd (reset_actor e b cfg sw))) a = Some False
                \<and> map_of (total_reward (snd (reset_actor e b cfg sw))) a
                    = map_of (total_reward e) a)
          \<and> (map_of (total_reward (snd (reset_actor e b cfg sw))) a = map_of (total_reward e) a
              \<or> map_of (total_reward (snd (reset_actor e b cfg sw))) a = Some None)"
    by (simp add: reset_actor_total reset_actor_flag)
  show "\<And>e b sw.
          (map_of (done_dict e) a = Some False
            \<longrightarrow> map_of (done_dict (snd (init_observation e b sw))) a = Some False
                \<and> map_of (total_reward (snd (init_observation e b sw))) a
                    = map_of (total_reward e) a)
          \<and> (map_of (total_reward (snd (init_observation e b sw))) a
                = map_of (total_reward e) a
              \<or> map_of (total_reward (snd (init_observation e b sw))) a = Some None)"
    by (simp add: init_observation_total_eq init_observation_keeps)
qed auto

lemma attach_sensors_camera:
  "attach_sensors e a cfg sw = (Inr u, e') \<Longrightarrow> a \<in> set (map fst (cameras e'))"
  by (auto simp: attach_sensors_def Let_def dom_update
        split: sum.splits option.splits prod.splits if_splits)

lemma reset_parts_cameras:
  "cameras (snd (hard_reset e b cfg sw)) = cameras e"
  "set (map fst (cameras e)) \<subseteq> set (map fst (cameras (snd (attach_sensors e b cfg sw))))"
  by (auto simp: hard_reset_def attach_sensors_def Let_def dom_update
        split: sum.split option.split scenario_entry.split prod.split)

lemma reset_actor_cameras:
  "set (map fst (cameras e)) \<subseteq> set (map fst (cameras (snd (reset_actor e b cfg sw))))"
proof -
  define e1 where "e1 = (if map_of (done_dict e) b = None
             then e\<lparr>done_dict := AList.update b True (done_dict e)\<rparr> else e)"
  define p where "p = (if b \<in> set (map fst (actors e1)) then soft_reset e1 b sw
            else hard_reset e1 b cfg sw)"
  have c1: "cameras e1 = cameras e" by (simp add: e1_def)
  have cp: "cameras (snd p) = cameras e"
    using reset_parts_cameras(1) [of e1 b cfg sw] c1 by (simp add: p_def)
  have ra: "snd (reset_actor e b cfg sw) = e1
            \<or> snd (reset_actor e b cfg sw) = snd p
            \<or> snd (reset_actor e b cfg sw) = snd (attach_sensors (snd p) b cfg sw)"
    unfolding e1_def p_def
    by (simp add: reset_actor_def Let_def split_beta split: sum.split)
  have "set (map fst (cameras e)) \<subseteq> set (map fst (cameras (snd (attach_sensors (snd p) b cfg sw))))"
    using reset_parts_cameras(2) [of "snd p" b cfg sw] cp by simp
  with ra c1 cp show ?thesis by (elim disjE) simp_all
qed

lemma reset_actor_marks:
  assumes "reset_actor e a cfg sw = (Inr u, e1)" and "map_of (done_dict e) a \<noteq> Some False"
  shows "map_of (done_dict e1) a = Some True \<and> a \<in> set (map fst (cameras e1))"
proof -
  have fl: "map_of (done_dict e1) a = Some True"
    using reset_actor_flag [of e a cfg sw a] assms by (cases "map_of (done_dict e) a") auto
  let ?e1 = "if map_of (done_dict e) a = None
             then e\<lparr>done_dict := AList.update a True (done_dict e)\<rparr> else e"
  have t: "map_of (done_dict ?e1) a = Some True"
    using assms(2) by (cases "map_of (done_dict e) a") (auto simp: update_conv')
  let ?p = "if a \<in> set (map fst (actors ?e1)) then soft_reset ?e1 a sw
            else hard_reset ?e1 a cfg sw"
  from assms(1) t obtain u2 e2 where "attach_sensors e2 a cfg sw = (Inr u, e1)"
    by (auto simp: reset_actor_def Let_def split: prod.splits sum.splits if_splits)
  from attach_sensors_camera [OF this] fl show ?thesis by simp
qed

lemma reset_actors_marks:
  assumes "reset_actors e acfgs w = (Inr u, e1)"
  shows "(a \<in> set (map fst acfgs) \<and> map_of (done_dict e) a \<noteq> Some False
            \<or> map_of (done_dict e) a = Some True \<and> a \<in> set (map fst (cameras e))
          \<longrightarrow> map_of (done_dict e1) a = Some True \<and> a \<in> set (map fst (cameras e1)))
         \<and> (map_of (done_dict e) a \<noteq> Some False \<longrightarrow> map_of (done_dict e1) a \<noteq> Some False)"
  using assms
proof (induction acfgs arbitrary: e)
  case Nil
  then show ?case by auto
next
  case (Cons p acfgs)
  obtain b cfg where p: "p = (b, cfg)" by (cases p)
  obtain r2 e2 where ra: "reset_actor e b cfg (w b) = (r2, e2)"
    by (cases "reset_actor e b cfg (w b)")
  from Cons.prems p ra obtain u2 where r2: "r2 = Inr u2"
    and rest: "reset_actors e2 acfgs w = (Inr u, e1)"
    by (cases r2) auto
  note IH = Cons.IH [OF rest]
  have fl: "map_of (done_dict e2) a
              = (if b = a \<and> map_of (done_dict e) a = None then Some True
                 else map_of (done_dict e) a)"
    using reset_actor_flag [of e b cfg "w b" a] ra by simp
  have cam: "set (map fst (cameras e)) \<subseteq> set (map fst (cameras e2))"
    using reset_actor_cameras [of e b cfg "w b"] ra by simp
  have mk: "b = a \<Longrightarrow> map_of (done_dict e) a \<noteq> Some False
            \<Longrightarrow> map_of (done_dict e2) a = Some True \<and> a \<in> set (map fst (cameras e2))"
    using reset_actor_marks [of e a cfg "w a" u2 e2] ra r2 by simp
  have A: "map_of (done_dict e1) a \<noteq> Some False"
    if "map_of (done_dict e) a \<noteq> Some False"
  proof -
    from that have "map_of (done_dict e2) a \<noteq> Some False" using fl by (auto split: if_splits)
    then show ?thesis using IH by blast
  qed
  have B: "map_of (done_dict e1) a = Some True \<and> a \<in> set (map fst (cameras e1))"
    if h: "a \<in> set (map fst (p # acfgs)) \<and> map_of (done_dict e) a \<noteq> Some False
               \<or> map_of (done_dict e) a = Some True \<and> a \<in> set (map fst (cameras e))"
  proof -
    have "a \<in> set (map fst acfgs) \<and> map_of (done_dict e2) a \<noteq> Some False
          \<or> map_of (done_dict e2) a = Some True \<and> a \<in> set (map fst (cameras e2))"
    proof (cases "b = a \<and> map_of (done_dict e) a \<noteq> Some False")
      case True
      then show ?thesis using mk by blast
    next
      case False
      with h p fl cam show ?thesis by (auto split: if_splits)
    qed
    then show ?thesis using IH by blast
  qed
  from A B show ?case by blast
qed

lemma init_observations_wipes:
  assumes "init_observations e as w = (Inr u, e2)"
    and "map_of (done_dict e) a = Some True"
  shows "(a \<in> set as \<or> map_of (total_reward e) a = Some None)
         \<longrightarrow> map_of (total_reward e2) a = Some None"
  using assms
proof (induction as arbitrary: e)
  case Nil
  then show ?case by simp
next
  case (Cons b as)
  obtain r1 e1 where io: "init_observation e b (w b) = (r1, e1)"
    by (cases "init_observation e b (w b)")
  from Cons.prems(1) io obtain u1 where r1: "r1 = Inr u1"
    and rest: "init_observations e1 as w = (Inr u, e2)"
    by (cases r1) auto
  have fl: "map_of (done_dict e1) a = Some True"
    using init_observation_keeps(4) [of e b "w b"] io Cons.prems(2) by simp
  have t1: "map_of (total_reward e1) a
              = (if b = a then Some None else map_of (total_reward e) a)"
    using init_observation_total_eq [of e b "w b" a] io Cons.prems(2) by simp
  from Cons.IH [OF rest fl] t1 show ?case by auto
qed

lemma reset_inner_wipes:
  assumes "reset_inner e aw = (Inr od, e')"
    and "a \<in> set (map fst (actor_configs e))" and "map_of (done_dict e) a \<noteq> Some False"
  shows "map_of (total_reward e') a = Some None"
proof -
  from assms(1) obtain u1 e1 u2 where
    ra: "reset_actors e (actor_configs e) (aw_actor aw) = (Inr u1, e1)"
    and io: "init_observations e1 (map fst (cameras e1)) (aw_actor aw) = (Inr u2, e')"
    by (auto simp: reset_inner_def split: sum.splits prod.splits)
  from reset_actors_marks [OF ra, of a] assms(2,3)
  have "map_of (done_dict e1) a = Some True" "a \<in> set (map fst (cameras e1))" by blast+
  with init_observations_wipes [OF io, of a] show ?thesis by blast
qed

lemma reset_loop_wipes:
  assumes "reset_loop e w retry k err = Some (Inr od, e')"
    and "a \<in> set (map fst (actor_configs e))" and "map_of (done_dict e) a \<noteq> Some False"
  shows "map_of (total_reward e') a = Some None"
  using assms
proof (induction k arbitrary: e retry err)
  case 0
  then show ?case by (simp split: option.splits)
next
  case (Suc k)
  let ?R = "\<lambda>e e'. actor_configs e' = actor_configs e
              \<and> (map_of (done_dict e) a \<noteq> Some False
                   \<longrightarrow> map_of (done_dict e') a \<noteq> Some False)"
  have Rinner: "?R e1 (snd (reset_inner e1 aw))" for e1 aw
  proof (rule reset_inner_rel [where R = ?R])
    show "\<And>e b cfg sw. (b, cfg) \<in> set (actor_configs e)
            \<Longrightarrow> ?R e (snd (reset_actor e b cfg sw))"
      by (simp add: reset_actor_flag)
    show "\<And>e b sw. ?R e (snd (init_observation e b sw))"
      by (simp add: init_observation_keeps)
  qed auto
  let ?s = "if server_process e = None then init_server e (w retry) else Some (Inr (), e)"
  from Suc.prems(1) obtain r1 e1 where s: "?s = Some (r1, e1)"
    by (cases ?s) (auto split: if_splits)
  have R1: "?R e e1"
    using s init_server_keeps(2,7) by (auto split: if_splits)
  have Rc: "?R e2 (clear_server_state e2)" for e2
    by (simp add: clear_server_state_keeps)
  show ?case
  proof (cases r1)
    case (Inl x)
    with Suc.prems(1) s
    have "reset_loop (clear_server_state e1) w (Suc retry) k (Some x) = Some (Inr od, e')"
      by (simp split: if_splits)
    from Suc.IH [OF this] R1 Rc [of e1] Suc.prems(2,3) show ?thesis by simp
  next
    case (Inr u)
    obtain r2 e2 where ri: "reset_inner e1 (w retry) = (r2, e2)"
      by (cases "reset_inner e1 (w retry)")
    have R2: "?R e1 e2" using Rinner [of e1 "w retry"] ri by simp
    show ?thesis
    proof (cases r2)
      case (Inl x)
      with Suc.prems(1) s Inr ri
      have "reset_loop (clear_server_state e2) w (Suc retry) k (Some x) = Some (Inr od, e')"
        by (simp split: if_splits)
      from Suc.IH [OF this] R1 R2 Rc [of e2] Suc.prems(2,3) show ?thesis by simp
    next
      case (Inr od2)
      with Suc.prems(1) s \<open>r1 = Inr u\<close> ri have "e' = e2" "od2 = od"
        by (simp_all split: if_splits)
      with reset_inner_wipes [of e1 "w retry" od e' a] ri Inr R1 Suc.prems(2,3)
      show ?thesis by simp
    qed
  qed
qed

lemma reset_wipes:
  assumes "reset e w = Some (Inr od, e')"
    and "a \<in> set (map fst (actor_configs e))" and "map_of (done_dict e) a \<noteq> Some False"
  shows "map_of (total_reward e') a = Some None"
  using reset_loop_wipes [of e w 0 RETRIES_ON_ERROR None od e' a] assms
  by (simp add: reset_def)

lemma run_calls_total:
  assumes "run_calls a e seen calls = Some (seen', e')"
    and "\<And>rs. seen = Some rs \<Longrightarrow> map_of (total_reward e) a = Some (foldl add_reward None rs)"
  shows "seen' = Some rs \<Longrightarrow> map_of (total_reward e') a = Some (foldl add_reward None rs)"
  using assms
proof (induction calls arbitrary: e seen)
  case Nil
  then show ?case by simp
next
  case (Cons c calls)
  show ?case
  proof (cases c)
    case (Step_call arg sim)
    obtain r e1 where st: "step e arg sim = (r, e1)" by (cases "step e arg sim")
    let ?seen1 = "map_option (\<lambda>rs. rs @ step_rewards e arg sim a) seen"
    have run: "run_calls a e1 ?seen1 calls = Some (seen', e')"
      using Cons.prems(2) Step_call st by simp
    have inv: "map_of (total_reward e1) a = Some (foldl add_reward None rs1)"
      if "?seen1 = Some rs1" for rs1
    proof -
      from that obtain rs0 where s0: "seen = Some rs0"
        and rs1: "rs1 = rs0 @ step_rewards e arg sim a" by auto
      from step_rewards_total [OF Cons.prems(3) [OF s0] st] rs1 show ?thesis by simp
    qed
    from Cons.IH [OF Cons.prems(1) run inv] show ?thesis by simp
  next
    case (Reset_call w)
    from Cons.prems(2) Reset_call obtain r e1 where rs: "reset e w = Some (r, e1)"
      by (cases "reset e w") auto
    let ?seen1 = "if map_of (total_reward e1) a = Some None then Some [] else seen"
    have run: "run_calls a e1 ?seen1 calls = Some (seen', e')"
      using Cons.prems(2) Reset_call rs by simp
    have inv: "map_of (total_reward e1) a = Some (foldl add_reward None rs1)"
      if "?seen1 = Some rs1" for rs1
      using that reset_total_kinds [OF rs, of a] Cons.prems(3)
      by (auto split: if_splits)
    from Cons.IH [OF Cons.prems(1) run inv] show ?thesis by simp
  qed
qed

text \<open>
  C5.  Two statements assign the running total of an actor: the second loop of \<^verbatim>\<open>_reset\<close>
  sets it to \<^verbatim>\<open>None\<close> for an actor that is marked done, and \<^verbatim>\<open>_step\<close> adds the reward it has
  just computed, the first reward replacing \<^verbatim>\<open>None\<close>.

    \<^item> \<^verbatim>\<open>_step\<close> on an actor that has a total: when it computes a reward, the total becomes
      that reward if it was \<^verbatim>\<open>None\<close> and the old total plus that reward otherwise, also
      when \<^verbatim>\<open>_step\<close> raises afterwards; when it raises before, the total is unchanged.
      The totals of the other actors are unchanged.  When \<^verbatim>\<open>_step\<close> returns, the reward it
      returns is the one it added, and the measurement holds it and the new total.

    \<^item> The body of the second loop of \<^verbatim>\<open>_reset\<close> sets the total of its actor to \<^verbatim>\<open>None\<close> if
      the actor is marked done, and changes no other total.

    \<^item> \<^verbatim>\<open>reset\<close>, with its retries and whatever its outcome, keeps the total of an actor
      that is marked not done, and leaves any total as it was or at \<^verbatim>\<open>None\<close>; when it
      returns observations, the total of every configured actor that was not marked
      not done is \<^verbatim>\<open>None\<close>.

    \<^item> \<^verbatim>\<open>step\<close>, whatever its outcome, moves the total of an actor by the rewards that
      \<^verbatim>\<open>_step\<close> computed for it during the call.  A call that raises computes none and
      changes nothing; a call that returns normally computes for an actor exactly the
      reward it hands back for it; a call that ends in the handler hands back no reward
      and keeps in the totals every reward computed before the fault.

    \<^item> Over any sequence of \<^verbatim>\<open>reset\<close> and \<^verbatim>\<open>step\<close> calls, whatever their outcomes, the total
      of an actor is \<^verbatim>\<open>None\<close> if \<^verbatim>\<open>_step\<close> has computed no reward for it since the last
      \<^verbatim>\<open>reset\<close> that left its total at \<^verbatim>\<open>None\<close>, and the sum \<open>r1 + ... + rk\<close> of these rewards
      otherwise.

    \<^item> In particular, from a state in which the total of an actor is \<^verbatim>\<open>None\<close>, after any
      sequence of \<^verbatim>\<open>step\<close> calls that return normally the total is \<^verbatim>\<open>None\<close> if no call
      has stepped the actor, and the sum of the rewards handed back for it otherwise.
\<close>

theorem total_reward_is_sum:
  "map_of (total_reward (snd (step_actor e1 a act fr))) a
     = (case step_actor_reward e1 a act fr of
          Inl x \<Rightarrow> map_of (total_reward e1) a
        | Inr reward \<Rightarrow>
            (case map_of (total_reward e1) a of
               None \<Rightarrow> None
             | Some tot \<Rightarrow> Some (Some (case tot of None \<Rightarrow> reward | Some t \<Rightarrow> t + reward))))
   \<and> (b \<noteq> a \<longrightarrow> map_of (total_reward (snd (step_actor e1 b act fr))) a
                    = map_of (total_reward e1) a)
   \<and> (step_actor e1 a act fr = (Inr (ob, rw, d, py), e1')
        \<longrightarrow> step_actor_reward e1 a act fr = Inr rw \<and> m_reward py = Some rw
            \<and> m_total_reward py = the (map_of (total_reward e1') a)
            \<and> m_total_reward py \<noteq> None)
   \<and> map_of (total_reward (snd (init_observation e2 b sw))) a
       = (if b = a \<and> map_of (done_dict e2) a = Some True then Some None
          else map_of (total_reward e2) a)
   \<and> (reset e3 w = Some (r3, e3')
        \<longrightarrow> (map_of (done_dict e3) a = Some False
               \<longrightarrow> map_of (total_reward e3') a = map_of (total_reward e3) a)
            \<and> (map_of (total_reward e3') a = map_of (total_reward e3) a
                \<or> map_of (total_reward e3') a = Some None)
            \<and> (\<not> isl r3 \<and> a \<in> set (map fst (actor_configs e3))
                 \<and> map_of (done_dict e3) a \<noteq> Some False
               \<longrightarrow> map_of (total_reward e3') a = Some None))
   \<and> (step e4 arg sim = (r4, e4') \<and> map_of (total_reward e4) a = Some tot4
        \<longrightarrow> map_of (total_reward e4') a
              = Some (if step_rewards e4 arg sim a = [] then tot4
                      else Some ((case tot4 of None \<Rightarrow> 0 | Some t \<Rightarrow> t)
                                 + sum_list (step_rewards e4 arg sim a))))
   \<and> (step e4 arg sim = (Raised x, e4') \<longrightarrow> e4' = e4 \<and> step_rewards e4 arg sim a = [])
   \<and> (dict_arg arg \<and> step e4 arg sim = (Normal od rd dd idd, e4')
        \<longrightarrow> step_rewards e4 arg sim a = (case map_of rd a of None \<Rightarrow> [] | Some rw \<Rightarrow> [rw]))
   \<and> ((case seen of
          None \<Rightarrow> True
        | Some rs0 \<Rightarrow>
            map_of (total_reward e5) a
              = Some (if rs0 = [] then None else Some (sum_list rs0)))
       \<and> run_calls a e5 seen cs = Some (Some rs5, e5')
        \<longrightarrow> map_of (total_reward e5') a
              = Some (if rs5 = [] then None else Some (sum_list rs5)))
   \<and> (map_of (total_reward e) a = Some None \<and> run_steps e calls = (rs, e')
        \<and> list_all is_normal rs \<and> list_all (\<lambda>c. dict_arg (fst c)) calls
      \<longrightarrow> map_of (total_reward e') a
            = Some (if rewards_of a rs = [] then None
                    else Some (sum_list (rewards_of a rs))))"
proof -
  have c1: "map_of (total_reward (snd (step_actor e1 a act fr))) a
     = (case step_actor_reward e1 a act fr of
          Inl x \<Rightarrow> map_of (total_reward e1) a
        | Inr reward \<Rightarrow>
            (case map_of (total_reward e1) a of
               None \<Rightarrow> None
             | Some tot \<Rightarrow> Some (Some (case tot of None \<Rightarrow> reward | Some t \<Rightarrow> t + reward))))"
    by (simp add: step_actor_total_eq add_reward_def update_conv'
          split: sum.split option.split)
  have c2: "b \<noteq> a \<longrightarrow> map_of (total_reward (snd (step_actor e1 b act fr))) a
                    = map_of (total_reward e1) a"
    using step_actor_total_other [of a b e1 act fr] by simp
  have c3: "step_actor e1 a act fr = (Inr (ob, rw, d, py), e1')
        \<longrightarrow> step_actor_reward e1 a act fr = Inr rw \<and> m_reward py = Some rw
            \<and> m_total_reward py = the (map_of (total_reward e1') a)
            \<and> m_total_reward py \<noteq> None"
  proof
    assume st: "step_actor e1 a act fr = (Inr (ob, rw, d, py), e1')"
    from step_actor_returns_reward [OF st] obtain tot where
      r: "step_actor_reward e1 a act fr = Inr rw" "m_reward py = Some rw"
      and t: "map_of (total_reward e1) a = Some tot" "m_total_reward py = add_reward tot rw"
      by blast
    have "map_of (total_reward e1') a = Some (add_reward tot rw)"
      using step_actor_total_eq [of e1 a act fr] st r t by (simp add: update_conv')
    with r t show "step_actor_reward e1 a act fr = Inr rw \<and> m_reward py = Some rw
            \<and> m_total_reward py = the (map_of (total_reward e1') a)
            \<and> m_total_reward py \<noteq> None"
      by (simp add: add_reward_def)
  qed
  have c4: "map_of (total_reward (snd (init_observation e2 b sw))) a
       = (if b = a \<and> map_of (done_dict e2) a = Some True then Some None
          else map_of (total_reward e2) a)"
    by (rule init_observation_total_eq)
  have c5: "reset e3 w = Some (r3, e3') \<longrightarrow> (map_of (done_dict e3) a = Some False
               \<longrightarrow> map_of (total_reward e3') a = map_of (total_reward e3) a)
            \<and> (map_of (total_reward e3') a = map_of (total_reward e3) a
                \<or> map_of (total_reward e3') a = Some None)
            \<and> (\<not> isl r3 \<and> a \<in> set (map fst (actor_configs e3))
                 \<and> map_of (done_dict e3) a \<noteq> Some False
               \<longrightarrow> map_of (total_reward e3') a = Some None)"
  proof
    assume rs: "reset e3 w = Some (r3, e3')"
    have "map_of (total_reward e3') a = Some None"
      if "\<not> isl r3" "a \<in> set (map fst (actor_configs e3))"
        "map_of (done_dict e3) a \<noteq> Some False"
    proof -
      from that(1) obtain od3 where "r3 = Inr od3" by (cases r3) simp_all
      with rs reset_wipes [of e3 w od3 e3' a] that(2,3) show ?thesis by simp
    qed
    with reset_total_kinds [OF rs, of a]
    show "(map_of (done_dict e3) a = Some False
               \<longrightarrow> map_of (total_reward e3') a = map_of (total_reward e3) a)
            \<and> (map_of (total_reward e3') a = map_of (total_reward e3) a
                \<or> map_of (total_reward e3') a = Some None)
            \<and> (\<not> isl r3 \<and> a \<in> set (map fst (actor_configs e3))
                 \<and> map_of (done_dict e3) a \<noteq> Some False
               \<longrightarrow> map_of (total_reward e3') a = Some None)"
      by blast
  qed
  have c6: "step e4 arg sim = (r4, e4') \<and> map_of (total_reward e4) a = Some tot4
        \<longrightarrow> map_of (total_reward e4') a
              = Some (if step_rewards e4 arg sim a = [] then tot4
                      else Some ((case tot4 of None \<Rightarrow> 0 | Some t \<Rightarrow> t)
                                 + sum_list (step_rewards e4 arg sim a)))"
    using step_rewards_total [of e4 a tot4 arg sim r4 e4'] by (simp add: foldl_add_reward)
  have c7: "step e4 arg sim = (Raised x, e4') \<longrightarrow> e4' = e4 \<and> step_rewards e4 arg sim a = []"
    using step_raised_state [of e4 arg sim x e4' a] by blast
  have c8: "dict_arg arg \<and> step e4 arg sim = (Normal od rd dd idd, e4')
        \<longrightarrow> step_rewards e4 arg sim a = (case map_of rd a of None \<Rightarrow> [] | Some rw \<Rightarrow> [rw])"
    using step_rewards_returned [of arg e4 sim od rd dd idd e4' a] by blast
  have c9: "(case seen of
          None \<Rightarrow> True
        | Some rs0 \<Rightarrow>
            map_of (total_reward e5) a
              = Some (if rs0 = [] then None else Some (sum_list rs0)))
       \<and> run_calls a e5 seen cs = Some (Some rs5, e5')
        \<longrightarrow> map_of (total_reward e5') a
              = Some (if rs5 = [] then None else Some (sum_list rs5))"
  proof (intro impI, elim conjE)
    assume inv: "case seen of
          None \<Rightarrow> True
        | Some rs0 \<Rightarrow>
            map_of (total_reward e5) a
              = Some (if rs0 = [] then None else Some (sum_list rs0))"
      and run: "run_calls a e5 seen cs = Some (Some rs5, e5')"
    have "map_of (total_reward e5) a = Some (foldl add_reward None rs0)"
      if "seen = Some rs0" for rs0
      using inv that by (simp add: foldl_add_reward)
    from run_calls_total [OF run this, of rs5]
    show "map_of (total_reward e5') a
              = Some (if rs5 = [] then None else Some (sum_list rs5))"
      by (simp add: foldl_add_reward)
  qed
  have c10: "map_of (total_reward e) a = Some None \<and> run_steps e calls = (rs, e')
        \<and> list_all is_normal rs \<and> list_all (\<lambda>c. dict_arg (fst c)) calls
      \<longrightarrow> map_of (total_reward e') a
            = Some (if rewards_of a rs = [] then None
                    else Some (sum_list (rewards_of a rs)))"
    using run_steps_total [of e calls rs e' a] by auto
  show ?thesis by (intro conjI c1 c2 c3 c4 c5 c6 c7 c8 c9 c10)
qed

lemma ex_one_three_steps:
  "\<exists>rs e'. run_steps ex_one
              [(ActionDict [(''car1'', Index 3)], ex_sim_reward 1),
               (ActionDict [(''car1'', Index 3)], ex_sim_reward (5 / 2)),
               (ActionDict [(''car1'', Index 3)], ex_sim_reward (- 4))] = (rs, e')
     \<and> rewards_of ''car1'' rs = [1, 5 / 2, - 4] \<and> list_all is_normal rs"
  by (simp add: ex_one_eq step_eval ex_defs ex_sim_reward_def)

lemma step_loop_rewards_single:
  "step_loop_rewards e [(b, act)] sim a
     = (case step_actor_reward e b act (sim b) of
          Inl x \<Rightarrow> [] | Inr reward \<Rightarrow> if b = a then [reward] else [])"
  by (simp add: Let_def split: prod.split sum.split)

lemma ex_calls_run:
  "\<exists>e'. run_calls ''car1'' ex_one (Some []) ex_calls = Some (Some [1, - 4, 5 / 2], e')"
  by (simp add: ex_calls_def ex_one_eq reset_eval step_eval ex_defs ex_sim_reward_def
        ex_sim_blind_def step_rewards_def step_actor_reward_def step_loop_rewards_single
      del: step_loop_rewards.simps)

lemma ex_calls_kinds:
  "\<exists>od rd dd idd.
     fst (run_steps ex_one
            [(ActionDict [(''car1'', Index 3)], ex_sim_reward 1),
             (ActionDict [(''car1'', Index 3)], ex_sim_blind (- 4)),
             (ActionDict [(''car1'', Index 3)], ex_sim)])
       = [Normal od rd dd idd, Degraded None 0 True [], Raised RuntimeError]
     \<and> map_of rd ''car1'' = Some 1"
  by (simp add: ex_one_eq step_eval ex_defs ex_sim_reward_def ex_sim_blind_def)

text \<open>
  The environment of \<^verbatim>\<open>car1\<close> after its reset.  Three steps with the rewards 1, 2.5 and
  -4 that return normally: the total is -0.5.  Then another history: a step with reward
  1 that returns normally; a step with reward -4 whose frame has no camera image, so
  that \<^verbatim>\<open>_step\<close> raises after it has added the reward and \<^verbatim>\<open>step\<close> ends in its handler; a
  step that raises because the server is gone; a \<^verbatim>\<open>reset\<close>, which does not respawn
  \<^verbatim>\<open>car1\<close> because it is marked not done; and a step with reward 2.5.  The rewards
  computed are 1, -4 and 2.5, and the total is -0.5.
\<close>

theorem total_reward_is_sum_witness:
  "map_of (total_reward ex_one) ''car1'' = Some None
   \<and> (\<exists>rs e'. run_steps ex_one
              [(ActionDict [(''car1'', Index 3)], ex_sim_reward 1),
               (ActionDict [(''car1'', Index 3)], ex_sim_reward (5 / 2)),
               (ActionDict [(''car1'', Index 3)], ex_sim_reward (- 4))] = (rs, e')
         \<and> rewards_of ''car1'' rs = [1, 5 / 2, - 4]
         \<and> map_of (total_reward e') ''car1'' = Some (Some (- 1 / 2)))
   \<and> (\<exists>od rd dd idd.
        fst (run_steps ex_one
               [(ActionDict [(''car1'', Index 3)], ex_sim_reward 1),
                (ActionDict [(''car1'', Index 3)], ex_sim_blind (- 4)),
                (ActionDict [(''car1'', Index 3)], ex_sim)])
          = [Normal od rd dd idd, Degraded None 0 True [], Raised RuntimeError]
        \<and> map_of rd ''car1'' = Some 1)
   \<and> (\<exists>e'. run_calls ''car1'' ex_one (Some []) ex_calls = Some (Some [1, - 4, 5 / 2], e')
           \<and> map_of (total_reward e') ''car1'' = Some (Some (- 1 / 2)))"
proof -
  let ?calls = "[(ActionDict [(''car1'', Index 3)], ex_sim_reward 1),
               (ActionDict [(''car1'', Index 3)], ex_sim_reward (5 / 2)),
               (ActionDict [(''car1'', Index 3)], ex_sim_reward (- 4))]"
  have t0: "map_of (total_reward ex_one) ''car1'' = Some None"
    by (simp add: ex_one_eq)
  obtain rs e1 where run1: "run_steps ex_one ?calls = (rs, e1)"
    and rw: "rewards_of ''car1'' rs = [1, 5 / 2, - 4]" and nm: "list_all is_normal rs"
    using ex_one_three_steps by blast
  have da: "list_all (\<lambda>c. dict_arg (fst c)) ?calls" by simp
  note T10 = total_reward_is_sum
               [where a = "''car1''" and e = ex_one and calls = ?calls and rs = rs and e' = e1,
                THEN conjunct2, THEN conjunct2, THEN conjunct2, THEN conjunct2, THEN conjunct2,
                THEN conjunct2, THEN conjunct2, THEN conjunct2, THEN conjunct2]
  have s1: "map_of (total_reward e1) ''car1'' = Some (Some (- 1 / 2))"
    using T10 t0 run1 rw nm da by simp
  have A: "\<exists>rs e'. run_steps ex_one ?calls = (rs, e')
         \<and> rewards_of ''car1'' rs = [1, 5 / 2, - 4]
         \<and> map_of (total_reward e') ''car1'' = Some (Some (- 1 / 2))"
    using run1 rw s1 by blast
  obtain e' where
    run: "run_calls ''car1'' ex_one (Some []) ex_calls = Some (Some [1, - 4, 5 / 2], e')"
    using ex_calls_run by blast
  note T9 = total_reward_is_sum
             [where a = "''car1''" and seen = "Some []" and ?e5.0 = ex_one and cs = ex_calls
                and ?rs5.0 = "[1, - 4, 5 / 2]" and ?e5'.0 = e',
              THEN conjunct2, THEN conjunct2, THEN conjunct2, THEN conjunct2, THEN conjunct2,
              THEN conjunct2, THEN conjunct2, THEN conjunct2, THEN conjunct1]
  have "map_of (total_reward e') ''car1'' = Some (Some (- 1 / 2))"
    using T9 t0 run by simp
  with run have B: "\<exists>e'. run_calls ''car1'' ex_one (Some []) ex_calls
                           = Some (Some [1, - 4, 5 / 2], e')
           \<and> map_of (total_reward e') ''car1'' = Some (Some (- 1 / 2))"
    by blast
  from t0 A ex_calls_kinds B show ?thesis by (intro conjI)
qed

section \<open>The termination test\<close>

lemma collided_done_Inr:
  "collided_done m = Inr c \<Longrightarrow>
     c = (m_collision_vehicles m > 0 \<or> m_collision_pedestrians m > 0
          \<or> m_collision_other m > 0 \<or> (\<exists>t. m_total_reward m = Some t \<and> t < - 100))"
  by (auto simp: collided_done_def split: if_splits option.splits)

lemma done_of_Inr:
  "done_of n scn config m = Inr d \<Longrightarrow>
     d = (n > max_steps scn \<or> m_next_command m = ''REACH_GOAL''
          \<or> (early_terminate_on_collision config
              \<and> (m_collision_vehicles m > 0 \<or> m_collision_pedestrians m > 0
                  \<or> m_collision_other m > 0
                  \<or> (\<exists>t. m_total_reward m = Some t \<and> t < - 100))))"
  by (auto simp: done_of_def split: if_splits dest: collided_done_Inr)

text \<open>
  What \<^verbatim>\<open>_step\<close> computes as the done flag of an actor, whenever it succeeds: the step
  counter of the actor exceeds the budget of \<^verbatim>\<open>self.scenario\<close>, or the next command is
  \<^verbatim>\<open>REACH_GOAL\<close>, or the configuration of the actor asks for early termination and a
  collision counter is positive or the running total, this step included, is below
  -100.  The flag is also stored under \<^verbatim>\<open>done\<close> in the measurement.
\<close>

theorem step_actor_done:
  assumes "step_actor e a act fr = (Inr (ob, rw, d, py), e')"
  shows "\<exists>n scn config.
           map_of (num_steps e) a = Some n \<and> scenario e = Some scn
           \<and> map_of (actor_configs e) a = Some config \<and> m_done py = Some d
           \<and> d = (n > max_steps scn \<or> m_next_command py = ''REACH_GOAL''
                  \<or> (early_terminate_on_collision config
                      \<and> (m_collision_vehicles py > 0 \<or> m_collision_pedestrians py > 0
                          \<or> m_collision_other py > 0
                          \<or> (\<exists>t. m_total_reward py = Some t \<and> t < - 100))))"
  using assms unfolding step_actor_def Let_def
proof (elim sum_stageE option_stageE pair_stageE, goal_cases)
  case (1 action ctl config u py0 pm reward tot n scn d' u' e5 cam img ob' e6)
  let ?py2 = "py0\<lparr>m_action := Some action, m_control := Some ctl, m_reward := Some reward,
                 m_total_reward := Some (case tot of None \<Rightarrow> reward | Some t \<Rightarrow> t + reward)\<rparr>"
  have cfg: "map_of (actor_configs e) a = Some config"
    using 1(3) by (simp add: dict_get_def split: option.splits)
  have n: "map_of (num_steps e) a = Some n"
    using 1(9) by (simp add: dict_get_def split: option.splits)
  have scn: "scenario e = Some scn" using 1(10) by simp
  have dn: "done_of n scn config ?py2 = Inr d'" using 1(11) by simp
  have py: "py = ?py2\<lparr>m_done := Some d'\<rparr>" and d: "d = d'" using 1(16) by auto
  from done_of_Inr [OF dn] py d cfg n scn show ?case by simp
qed

text \<open>The first step of \<^verbatim>\<open>car1\<close> after its reset: counter 0, budget 2, not done.\<close>

theorem step_actor_done_witness:
  "\<exists>ob py e'.
     step_actor ex_one ''car1'' (Index 3) (ex_frame [[3]]) = (Inr (ob, 1, False, py), e')
     \<and> map_of (num_steps ex_one) ''car1'' = Some 0
     \<and> scenario ex_one = Some (ex_scenario 2)
     \<and> m_done py = Some False \<and> m_next_command py = ''LANE_FOLLOW''"
proof -
  obtain ob py e' where
    st: "step_actor ex_one ''car1'' (Index 3) (ex_frame [[3]]) = (Inr (ob, 1, False, py), e')"
    and nc: "m_next_command py = ''LANE_FOLLOW''"
    by (simp add: ex_one_eq step_eval ex_defs)
  have "map_of (num_steps ex_one) ''car1'' = Some 0" "scenario ex_one = Some (ex_scenario 2)"
    by (simp_all add: ex_one_eq ex_scenario_def)
  with step_actor_done [OF st] st nc show ?thesis by auto
qed

end
